theory Spec2Isabelle
  imports Complex_Main
begin

section \<open>The IntersectionObserver demo page (src/routes/+page.svelte)\<close>

text \<open>
  The page's script block is embedded as it is written: the \<open>intersect\<close> action
  with its closure variables \<open>opts\<close>, \<open>current\<close> and \<open>observer\<close>, and the
  page's reactive variables with the three functions that write them
  (\<open>note\<close>, \<open>loadFull\<close>, \<open>markRevealed\<close>).

  What the browser does is made explicit state:
  \<^item> a DOM element is a number (its identity);
  \<^item> a JavaScript number (a ratio, a threshold) is the real number it denotes, and a
    literal of the script stands for the double it denotes; the numbers here are finite,
    and the model does no arithmetic on them;
  \<^item> the one computation of the script, \<open>Math.round(r * 100) / 100\<close> in the browser's
    double arithmetic, is a function the environment supplies, and nothing is assumed
    about it;
  \<^item> \<open>new Date()\<close> is read from a clock the environment owns: an arbitrary
    sequence of formatted readings, one consumed at each read;
  \<^item> an \<open>Image\<close> whose \<open>onload\<close> handler has been set waits in a list until
    the browser fires its load event;
  \<^item> the \<open>IntersectionObserver\<close> objects an action creates live in a store, the
    variable \<open>observer\<close> holding the index of the latest one;
  \<^item> the constructor of an observer throws on options it does not accept, and a
    function that throws gives the exception together with the variables as it leaves them.

  The script also constructs one observer at top level (\<open>const observer = ...\<close>, with
  \<open>rootMargin: "200px 0px"\<close>). Nothing ever calls its \<open>observe\<close>, so it watches no
  element and its callback never runs; it has no part in what follows.
\<close>

subsection \<open>Data\<close>

type_synonym element = nat

text \<open>The fields of an \<open>IntersectionObserverEntry\<close> that the script reads.\<close>

record entry =
  target :: element
  isIntersecting :: bool
  intersectionRatio :: real

datatype direction = enter | leave

text \<open>\<open>type LogEntry\<close>; the field \<open>id\<close> is written \<open>ident\<close>.\<close>

record LogEntry =
  ident :: string
  ratio :: real
  direction :: direction
  time :: string

text \<open>\<open>type SectionId\<close>: the ids of \<open>navSections\<close>.\<close>

datatype SectionId = Overview | Lazy | Reveal | Spy | Log

text \<open>An element of \<open>gallery\<close>; the field \<open>id\<close> is written \<open>item_id\<close>.\<close>

record item =
  item_id :: string
  title :: string
  description :: string
  blur :: string
  full :: string

definition gallery :: "item list" where
  "gallery =
    [\<lparr>item_id = ''aurora'', title = ''Aurora Cache'',
      description = ''Preload offscreen assets with rootMargin and a single observer.'',
      blur = ''https://images.unsplash.com/photo-1444703686981-a3abbc4d4fe3?auto=format&fit=crop&w=40&q=20&blur=40'',
      full = ''https://images.unsplash.com/photo-1444703686981-a3abbc4d4fe3?auto=format&fit=crop&w=1400&q=80''\<rparr>,
     \<lparr>item_id = ''desert'', title = ''Desert Streams'',
      description = ''Observe many targets at once; IO batches them for you.'',
      blur = ''https://images.unsplash.com/photo-1500534314209-a25ddb2bd429?auto=format&fit=crop&w=40&q=20&blur=40'',
      full = ''https://images.unsplash.com/photo-1500534314209-a25ddb2bd429?auto=format&fit=crop&w=1400&q=80''\<rparr>,
     \<lparr>item_id = ''city'', title = ''City Highlights'',
      description = ''Use threshold arrays to stagger when UI states flip.'',
      blur = ''https://images.unsplash.com/photo-1444084316824-dc26d6657664?auto=format&fit=crop&w=40&q=20&blur=40'',
      full = ''https://images.unsplash.com/photo-1444084316824-dc26d6657664?auto=format&fit=crop&w=1400&q=80''\<rparr>,
     \<lparr>item_id = ''forest'', title = ''Forest Signals'',
      description = ''Once-only observations keep observers lean over time.'',
      blur = ''https://images.unsplash.com/photo-1500530855697-b586d89ba3ee?auto=format&fit=crop&w=40&q=20&blur=40'',
      full = ''https://images.unsplash.com/photo-1500530855697-b586d89ba3ee?auto=format&fit=crop&w=1400&q=80''\<rparr>]"

subsection \<open>The page's state\<close>

text \<open>
  The six \<open>$state\<close> variables, and what the browser holds for the page:
  \<open>images\<close>, the \<open>Image\<close> objects created by \<open>loadFull\<close> whose load event
  has not fired yet (each with the \<open>item\<close> and \<open>entry\<close> its \<open>onload\<close> closure
  captured); the clock (\<open>clock (reads s)\<close> is what the next \<open>new Date()\<close>,
  formatted, gives); and its arithmetic (\<open>rounded s r\<close> is the number that
  \<open>Math.round(r * 100) / 100\<close> evaluates to).
\<close>

record page =
  activeSection :: SectionId
  revealThreshold :: real
  imageSrc :: "string \<rightharpoonup> string"
  loadedImages :: "string set"
  revealed :: "string set"
  logs :: "LogEntry list"
  images :: "(item \<times> entry option) list"
  clock :: "nat \<Rightarrow> string"
  reads :: nat
  rounded :: "real \<Rightarrow> real"

text \<open>The initial values of the script; \<open>imageSrc\<close> maps every gallery id to its
  \<open>blur\<close> URL (\<open>Object.fromEntries\<close>: a later pair wins).\<close>

definition initial_page :: "(nat \<Rightarrow> string) \<Rightarrow> (real \<Rightarrow> real) \<Rightarrow> page" where
  "initial_page clk rnd =
    \<lparr>activeSection = Overview, revealThreshold = 0.35,
     imageSrc = map_of (rev (map (\<lambda>it. (item_id it, blur it)) gallery)),
     loadedImages = {}, revealed = {}, logs = [],
     images = [], clock = clk, reads = 0, rounded = rnd\<rparr>"

text \<open>\<open>note\<close> (written \<open>note_entry\<close>): the new record in front of the old ones, cut to ten
  (\<open>[{...}, ...logs].slice(0, 10)\<close>). Its ratio is what the browser computes for
  \<open>Math.round(entry.intersectionRatio * 100) / 100\<close>.\<close>

definition note_entry :: "entry \<Rightarrow> string \<Rightarrow> page \<Rightarrow> page" where
  "note_entry e i s =
    s\<lparr>logs :=
        take 10
          (\<lparr>ident = i,
            ratio = rounded s (intersectionRatio e),
            direction = (if isIntersecting e then enter else leave),
            time = clock s (reads s)\<rparr> # logs s),
      reads := Suc (reads s)\<rparr>"

text \<open>\<open>loadFull\<close>, up to the point where it returns: nothing when the full image
  is already shown, otherwise a new \<open>Image\<close> with its \<open>onload\<close> handler set.\<close>

definition loadFull :: "item \<Rightarrow> entry option \<Rightarrow> page \<Rightarrow> page" where
  "loadFull it eo s =
    (if imageSrc s (item_id it) = Some (full it) then s
     else s\<lparr>images := images s @ [(it, eo)]\<rparr>)"

text \<open>The body of the \<open>img.onload\<close> handler that \<open>loadFull\<close> installs.\<close>

definition onload :: "item \<Rightarrow> entry option \<Rightarrow> page \<Rightarrow> page" where
  "onload it eo s =
    (let s1 = s\<lparr>imageSrc := (imageSrc s)(item_id it \<mapsto> full it)\<rparr>;
         s2 = s1\<lparr>loadedImages := insert (item_id it) (loadedImages s1)\<rparr>
     in case eo of None \<Rightarrow> s2 | Some e \<Rightarrow> note_entry e (item_id it) s2)"

text \<open>The browser fires the load event of the \<open>k\<close>-th waiting image: its handler
  runs, and the image waits no longer (a load event fires once).\<close>

definition image_loaded :: "nat \<Rightarrow> page \<Rightarrow> page" where
  "image_loaded k s =
    (if k < length (images s)
     then (case images s ! k of
             (it, eo) \<Rightarrow> onload it eo (s\<lparr>images := take k (images s) @ drop (Suc k) (images s)\<rparr>))
     else s)"

text \<open>\<open>markRevealed\<close>.\<close>

definition markRevealed :: "string \<Rightarrow> entry option \<Rightarrow> page \<Rightarrow> page" where
  "markRevealed i eo s =
    (if i \<notin> revealed s
     then (let s1 = s\<lparr>revealed := insert i (revealed s)\<rparr>
           in case eo of None \<Rightarrow> s1 | Some e \<Rightarrow> note_entry e i s1)
     else s)"

text \<open>Everything that can happen to the page's state: a call of one of the three
  functions, an assignment to \<open>activeSection\<close> or \<open>revealThreshold\<close> (the
  section callbacks and the slider), and a load event.\<close>

datatype event =
    Note entry string
  | LoadFull item "entry option"
  | ImageLoaded nat
  | MarkRevealed string "entry option"
  | SetActive SectionId
  | SetThreshold real

fun step :: "page \<Rightarrow> event \<Rightarrow> page" where
  "step s (Note e i) = note_entry e i s"
| "step s (LoadFull it eo) = loadFull it eo s"
| "step s (ImageLoaded k) = image_loaded k s"
| "step s (MarkRevealed i eo) = markRevealed i eo s"
| "step s (SetActive a) = s\<lparr>activeSection := a\<rparr>"
| "step s (SetThreshold t) = s\<lparr>revealThreshold := t\<rparr>"

definition run :: "page \<Rightarrow> event list \<Rightarrow> page" where
  "run s evs = foldl step s evs"

subsection \<open>The \<open>intersect\<close> action\<close>

text \<open>
  An optional property of a JavaScript object: the key is missing, or it is there and
  holds \<open>undefined\<close>, or it holds a value. (\<open>??\<close> and \<open>?.\<close> treat the first two
  alike; object spread does not.) A property that may also hold \<open>null\<close>, as
  \<open>root\<close> does, has an \<open>option\<close> as its value, \<open>None\<close> being \<open>null\<close>.
\<close>

datatype 'a optional = Absent | Undefined | Value 'a

text \<open>\<open>number | number[]\<close>.\<close>

datatype threshold = Num real | Arr "real list"

text \<open>\<open>type IntersectionParams\<close>. A callback is a function of the entry that may
  write the state \<open>'st\<close> it closes over.\<close>

record 'st IntersectionParams =
  threshold :: "threshold optional"
  root :: "element option optional"
  rootMargin :: "string optional"
  once :: "bool optional"
  onEnter :: "(entry \<Rightarrow> 'st \<Rightarrow> 'st) optional"
  onLeave :: "(entry \<Rightarrow> 'st \<Rightarrow> 'st) optional"

text \<open>The object \<open>{}\<close>, the default of the parameter \<open>params\<close>.\<close>

definition no_params :: "'st IntersectionParams" where
  "no_params =
    \<lparr>threshold = Absent, root = Absent, rootMargin = Absent,
     once = Absent, onEnter = Absent, onLeave = Absent\<rparr>"

text \<open>The type of \<open>opts\<close> (all three keys always there).\<close>

record IntersectionObserverInit =
  init_root :: "element option"
  init_rootMargin :: string
  init_threshold :: threshold

text \<open>\<open>x ?? d\<close> for a property that cannot hold \<open>null\<close>, and for one that can.\<close>

definition nullish :: "'a optional \<Rightarrow> 'a \<Rightarrow> 'a" where
  "nullish x d = (case x of Value v \<Rightarrow> v | _ \<Rightarrow> d)"

definition nullish_null :: "'a option optional \<Rightarrow> 'a option \<Rightarrow> 'a option" where
  "nullish_null x d = (case x of Value (Some v) \<Rightarrow> Some v | _ \<Rightarrow> d)"

text \<open>\<open>f?.(entry)\<close>: the call, when there is a function to call.\<close>

definition optional_call :: "(entry \<Rightarrow> 'st \<Rightarrow> 'st) optional \<Rightarrow> entry \<Rightarrow> 'st \<Rightarrow> 'st" where
  "optional_call f e s = (case f of Value g \<Rightarrow> g e s | _ \<Rightarrow> s)"

text \<open>One key of \<open>{ ...current, ...next }\<close>: the key of \<open>next\<close> when it is there
  (whatever it holds), else the key of \<open>current\<close>.\<close>

definition spread_key :: "'a optional \<Rightarrow> 'a optional \<Rightarrow> 'a optional" where
  "spread_key c n = (case n of Absent \<Rightarrow> c | _ \<Rightarrow> n)"

definition spread :: "'st IntersectionParams \<Rightarrow> 'st IntersectionParams \<Rightarrow> 'st IntersectionParams" where
  "spread c n =
    \<lparr>threshold = spread_key (threshold c) (threshold n),
     root = spread_key (root c) (root n),
     rootMargin = spread_key (rootMargin c) (rootMargin n),
     once = spread_key (once c) (once n),
     onEnter = spread_key (onEnter c) (onEnter n),
     onLeave = spread_key (onLeave c) (onLeave n)\<rparr>"

text \<open>
  An \<open>IntersectionObserver\<close> object: the options it was constructed with and the
  elements it is watching. (Its callback is the one closure of the action, so it is not
  stored.)
\<close>

record IntersectionObserver =
  options :: IntersectionObserverInit
  targets :: "element set"

definition modify :: "nat \<Rightarrow> ('a \<Rightarrow> 'a) \<Rightarrow> 'a list \<Rightarrow> 'a list" where
  "modify i f xs = (if i < length xs then xs[i := f (xs ! i)] else xs)"

definition disconnect :: "nat \<Rightarrow> IntersectionObserver list \<Rightarrow> IntersectionObserver list" where
  "disconnect i os = modify i (\<lambda>ob. ob\<lparr>targets := {}\<rparr>) os"

definition observe :: "nat \<Rightarrow> element \<Rightarrow> IntersectionObserver list \<Rightarrow> IntersectionObserver list" where
  "observe i t os = modify i (\<lambda>ob. ob\<lparr>targets := insert t (targets ob)\<rparr>) os"

definition unobserve :: "nat \<Rightarrow> element \<Rightarrow> IntersectionObserver list \<Rightarrow> IntersectionObserver list" where
  "unobserve i t os = modify i (\<lambda>ob. ob\<lparr>targets := targets ob - {t}\<rparr>) os"

text \<open>
  The exceptions of the constructor \<open>new IntersectionObserver(callback, options)\<close>: a
  \<open>SyntaxError\<close> when \<open>rootMargin\<close> does not parse as a margin, a \<open>RangeError\<close> when
  a threshold is below 0 or above 1. Which strings parse as a margin is the browser's
  affair: it is the parameter \<open>parses\<close>, about which nothing is assumed.
\<close>

datatype error = SyntaxError | RangeError

definition threshold_values :: "threshold \<Rightarrow> real list" where
  "threshold_values t = (case t of Num x \<Rightarrow> [x] | Arr xs \<Rightarrow> xs)"

definition constructor_throws :: "(string \<Rightarrow> bool) \<Rightarrow> IntersectionObserverInit \<Rightarrow> error option" where
  "constructor_throws parses ini =
    (if parses (init_rootMargin ini)
     then (if list_ex (\<lambda>t. t < 0 \<or> 1 < t) (threshold_values (init_threshold ini))
           then Some RangeError else None)
     else Some SyntaxError)"

text \<open>
  The variables of one call of \<open>intersect\<close>: the parameter \<open>node\<close>, the
  \<open>let\<close>-variables \<open>opts\<close>, \<open>current\<close> and \<open>observer\<close> (\<open>None\<close> before the
  first assignment), and the observers created so far; with them, the margin parser of
  the browser the action runs in.
\<close>

record 'st action =
  node :: element
  opts :: IntersectionObserverInit
  current :: "'st IntersectionParams"
  observer :: "nat option"
  observers :: "IntersectionObserver list"
  margin_parses :: "string \<Rightarrow> bool"

text \<open>
  \<open>init\<close>: \<open>observer?.disconnect()\<close>, then the constructor on \<open>opts\<close>. When it
  throws, \<open>init\<close> ends there, with the exception: \<open>observer\<close> still refers to the
  old, disconnected observer. Otherwise the new observer is assigned to \<open>observer\<close> and
  \<open>observer.observe(node)\<close> follows. The result is the exception, if any, and the
  variables as \<open>init\<close> leaves them.
\<close>

definition init :: "'st action \<Rightarrow> error option \<times> 'st action" where
  "init a =
    (let os1 = (case observer a of None \<Rightarrow> observers a | Some i \<Rightarrow> disconnect i (observers a))
     in case constructor_throws (margin_parses a) (opts a) of
          Some err \<Rightarrow> (Some err, a\<lparr>observers := os1\<rparr>)
        | None \<Rightarrow>
            (let j = length os1;
                 os2 = os1 @ [\<lparr>options = opts a, targets = {}\<rparr>]
             in (None, a\<lparr>observer := Some j, observers := observe j (node a) os2\<rparr>)))"

text \<open>\<open>intersect(node, params = {})\<close>, up to its \<open>return\<close>: the exception of
  \<open>init()\<close>, or the attached action.\<close>

definition intersect ::
  "(string \<Rightarrow> bool) \<Rightarrow> element \<Rightarrow> 'st IntersectionParams option \<Rightarrow> error + 'st action" where
  "intersect parses n po =
    (let params = (case po of None \<Rightarrow> no_params | Some p \<Rightarrow> p)
     in case init
          \<lparr>node = n,
           opts = \<lparr>init_root = nullish_null (root params) None,
                   init_rootMargin = nullish (rootMargin params) ''0px'',
                   init_threshold = nullish (threshold params) (Num 0.25)\<rparr>,
           current = params,
           observer = None,
           observers = [],
           margin_parses = parses\<rparr> of
          (Some err, a) \<Rightarrow> Inl err
        | (None, a) \<Rightarrow> Inr a)"

text \<open>\<open>update(next)\<close>: the exception of \<open>init()\<close>, if any, and the variables as
  \<open>update\<close> leaves them (the two assignments are made before \<open>init()\<close> is called).\<close>

definition update :: "'st IntersectionParams \<Rightarrow> 'st action \<Rightarrow> error option \<times> 'st action" where
  "update next a =
    init
      (a\<lparr>current := spread (current a) next,
         opts :=
           \<lparr>init_root = nullish_null (root next) (nullish_null (Value (init_root (opts a))) None),
            init_rootMargin =
              nullish (rootMargin next) (nullish (Value (init_rootMargin (opts a))) ''0px''),
            init_threshold = nullish (threshold next) (init_threshold (opts a))\<rparr>\<rparr>)"

text \<open>\<open>destroy()\<close>.\<close>

definition destroy :: "'st action \<Rightarrow> 'st action" where
  "destroy a =
    (case observer a of None \<Rightarrow> a
     | Some i \<Rightarrow> a\<lparr>observers := disconnect i (observers a)\<rparr>)"

text \<open>
  The observer callback, one entry of \<open>entries.forEach\<close>. The closure reads the
  variables \<open>current\<close> and \<open>observer\<close> when it runs. (\<open>observer\<close> has been assigned
  before any callback can run.)
\<close>

definition on_entry :: "entry \<Rightarrow> 'st action \<times> 'st \<Rightarrow> 'st action \<times> 'st" where
  "on_entry e x =
    (case x of (a, s) \<Rightarrow>
      if isIntersecting e then
        (let s1 = optional_call (onEnter (current a)) e s;
             a1 = (if once (current a) = Value True
                   then (case observer a of None \<Rightarrow> a
                         | Some i \<Rightarrow> a\<lparr>observers := unobserve i (target e) (observers a)\<rparr>)
                   else a)
         in (a1, s1))
      else (a, optional_call (onLeave (current a)) e s))"

fun callback :: "entry list \<Rightarrow> 'st action \<times> 'st \<Rightarrow> 'st action \<times> 'st" where
  "callback [] x = x"
| "callback (e # es) x = callback es (on_entry e x)"

text \<open>
  The browser's side of the interface: a notification of observer \<open>i\<close> carries entries
  of elements that observer is watching and no others, and with nothing to report the
  callback is not called.
\<close>

definition notify :: "nat \<Rightarrow> entry list \<Rightarrow> 'st action \<times> 'st \<Rightarrow> 'st action \<times> 'st" where
  "notify i es x =
    (let os = observers (fst x);
         reported = filter (\<lambda>e. i < length os \<and> target e \<in> targets (os ! i)) es
     in if reported = [] then x else callback reported x)"

text \<open>The observer object the variable \<open>observer\<close> refers to.\<close>

definition latest :: "'st action \<Rightarrow> IntersectionObserver option" where
  "latest a =
    (case observer a of None \<Rightarrow> None
     | Some i \<Rightarrow> if i < length (observers a) then Some (observers a ! i) else None)"

text \<open>The elements the action's current observer is watching.\<close>

definition watched :: "'st action \<Rightarrow> element set" where
  "watched a =
    (case observer a of None \<Rightarrow> {}
     | Some i \<Rightarrow> if i < length (observers a) then targets (observers a ! i) else {})"

text \<open>What happens to an attached action: Svelte calls \<open>update\<close> or \<open>destroy\<close>,
  the browser notifies one of its observers. An \<open>update\<close> that throws leaves the
  action as it was when the exception was raised.\<close>

datatype 'st action_event =
    Update "'st IntersectionParams"
  | Notify nat "entry list"
  | Destroy

fun action_step :: "'st action \<times> 'st \<Rightarrow> 'st action_event \<Rightarrow> 'st action \<times> 'st" where
  "action_step x (Update next) = (snd (update next (fst x)), snd x)"
| "action_step x (Notify i es) = notify i es x"
| "action_step x Destroy = (destroy (fst x), snd x)"

definition action_run :: "'st action \<times> 'st \<Rightarrow> 'st action_event list \<Rightarrow> 'st action \<times> 'st" where
  "action_run x evs = foldl action_step x evs"

subsection \<open>The parameters the page's markup passes to \<open>use:intersect\<close>\<close>

text \<open>The five page sections: \<open>{ threshold: t, onEnter: () => (activeSection = sec) }\<close>.\<close>

definition section_params :: "real \<Rightarrow> SectionId \<Rightarrow> page IntersectionParams" where
  "section_params t sec =
    no_params\<lparr>threshold := Value (Num t),
              onEnter := Value (\<lambda>e s. s\<lparr>activeSection := sec\<rparr>)\<rparr>"

text \<open>A gallery card.\<close>

definition gallery_params :: "item \<Rightarrow> page IntersectionParams" where
  "gallery_params shot =
    no_params\<lparr>threshold := Value (Num 0.15),
              rootMargin := Value ''0px 0px 240px 0px'',
              once := Value True,
              onEnter := Value (\<lambda>e s. loadFull shot (Some e) s)\<rparr>"

text \<open>A reveal block (the threshold is the slider's value when the markup is
  evaluated).\<close>

definition reveal_params :: "real \<Rightarrow> string \<Rightarrow> page IntersectionParams" where
  "reveal_params t block_id =
    no_params\<lparr>threshold := Value (Num t),
              onEnter := Value (\<lambda>e s. markRevealed block_id (Some e) s)\<rparr>"

text \<open>A scroll-spy article.\<close>

definition spy_params :: "string \<Rightarrow> page IntersectionParams" where
  "spy_params section_id =
    no_params\<lparr>threshold := Value (Num 0.5),
              onEnter := Value (\<lambda>e s. note_entry e section_id (s\<lparr>activeSection := Spy\<rparr>)),
              onLeave := Value (\<lambda>e s. note_entry e section_id s)\<rparr>"

subsection \<open>Predicates the theorems use\<close>

text \<open>\<open>loadFull\<close> is called on elements of \<open>gallery\<close>: its parameter has the type
  \<open>(typeof gallery)[number]\<close>, and its one call is inside \<open>{#each gallery as shot}\<close>.\<close>

definition gallery_event :: "event \<Rightarrow> bool" where
  "gallery_event ev = (case ev of LoadFull it eo \<Rightarrow> it \<in> set gallery | _ \<Rightarrow> True)"

text \<open>Every waiting image belongs to a gallery item, and every gallery item is shown
  with its \<open>blur\<close> or its \<open>full\<close> URL.\<close>

definition shows_gallery :: "page \<Rightarrow> bool" where
  "shows_gallery s =
    (list_all (\<lambda>w. fst w \<in> set gallery) (images s) \<and>
     list_all (\<lambda>g. imageSrc s (item_id g) = Some (blur g) \<or>
                    imageSrc s (item_id g) = Some (full g)) gallery)"

text \<open>The five \<open>$state\<close> variables the callbacks write.\<close>

definition page_vars ::
  "page \<Rightarrow> SectionId \<times> (string \<rightharpoonup> string) \<times> string set \<times> string set \<times> LogEntry list" where
  "page_vars s = (activeSection s, imageSrc s, loadedImages s, revealed s, logs s)"

text \<open>The entries of a batch that \<open>notify\<close> hands to the callback.\<close>

definition reported :: "nat \<Rightarrow> 'st action \<Rightarrow> entry list \<Rightarrow> entry list" where
  "reported i a es =
    filter (\<lambda>e. i < length (observers a) \<and> target e \<in> targets (observers a ! i)) es"

text \<open>A margin parser for the examples: it accepts the two margins of the script and
  one more, and nothing else.\<close>

definition example_parses :: "string \<Rightarrow> bool" where
  "example_parses m = (m \<in> set [''0px'', ''0px 0px 240px 0px'', ''10px''])"

text \<open>In the examples the clock always reads \<open>12:00:00\<close> and the rounding of the
  environment is the identity: their ratios are 0, 1/2 and 1, which
  \<open>Math.round(r * 100) / 100\<close> leaves as they are.\<close>

text \<open>The shape of an attached action: \<open>observer\<close> is the observer created last, that
  one watches nothing but \<open>node\<close>, and the earlier ones watch nothing.\<close>

definition attached :: "'st action \<Rightarrow> bool" where
  "attached a =
    (case observer a of None \<Rightarrow> False
     | Some i \<Rightarrow>
         Suc i = length (observers a) \<and>
         targets (observers a ! i) \<subseteq> {node a} \<and>
         list_all (\<lambda>ob. targets ob = {}) (take i (observers a)))"

text \<open>Callbacks that write down their calls, to tell which callbacks an action
  invokes, and in which order.\<close>

datatype call = EnterCall entry | LeaveCall entry

fun call_target :: "call \<Rightarrow> element" where
  "call_target (EnterCall e) = target e"
| "call_target (LeaveCall e) = target e"

definition recording_params :: "bool optional \<Rightarrow> (call list) IntersectionParams" where
  "recording_params b =
    no_params\<lparr>once := b,
              onEnter := Value (\<lambda>e cs. cs @ [EnterCall e]),
              onLeave := Value (\<lambda>e cs. cs @ [LeaveCall e])\<rparr>"

text \<open>After an enter call for an element, no further call for that element.\<close>

fun no_call_after_enter :: "call list \<Rightarrow> bool" where
  "no_call_after_enter [] = True"
| "no_call_after_enter (EnterCall e # cs) =
     (target e \<notin> set (map call_target cs) \<and> no_call_after_enter cs)"
| "no_call_after_enter (LeaveCall e # cs) = no_call_after_enter cs"

section \<open>The event log\<close>

lemma length_logs_note: "length (logs (note_entry e i s)) \<le> 10"
  by (simp add: note_entry_def)

lemma run_Nil: "run s [] = s"
  by (simp add: run_def)

lemma run_Cons: "run s (ev # evs) = run (step s ev) evs"
  by (simp add: run_def)

lemma run_snoc: "run s (evs @ [ev]) = step (run s evs) ev"
  by (simp add: run_def)

lemma length_logs_notes:
  "length (logs s) \<le> 10 \<Longrightarrow>
   length (logs (run s (map (\<lambda>c. Note (fst c) (snd c)) cs))) \<le> 10"
  by (cases cs rule: rev_cases) (simp_all add: run_Nil run_snoc length_logs_note)

text \<open>
  Claim C3. The event log never exceeds 10 entries: starting from the empty log of the
  initial page, after every call of a sequence of calls to \<open>note\<close> (after the first
  \<open>k\<close> calls, for every \<open>k\<close>) the length of \<open>logs\<close> is at most 10.
\<close>

theorem log_never_exceeds_ten:
  "length (logs (run (initial_page clk rnd) (map (\<lambda>c. Note (fst c) (snd c)) (take k calls)))) \<le> 10"
  by (rule length_logs_notes) (simp add: initial_page_def)

theorem log_never_exceeds_ten_witness:
  "length (logs (run (initial_page (\<lambda>n. ''12:00:00'') (\<lambda>r. r))
      (map (\<lambda>c. Note (fst c) (snd c))
        (take 12 (replicate 12
          (\<lparr>target = 1, isIntersecting = True, intersectionRatio = 0.5\<rparr>, ''use-case-1'')))))) \<le> 10"
  by (rule log_never_exceeds_ten)



section \<open>The sets \<open>loadedImages\<close> and \<open>revealed\<close>\<close>

lemma loaded_step: "x \<in> loadedImages s \<Longrightarrow> x \<in> loadedImages (step s ev)"
  by (cases ev)
    (auto simp: note_entry_def loadFull_def image_loaded_def onload_def markRevealed_def Let_def
      split: option.splits prod.splits)

lemma revealed_step: "x \<in> revealed s \<Longrightarrow> x \<in> revealed (step s ev)"
  by (cases ev)
    (auto simp: note_entry_def loadFull_def image_loaded_def onload_def markRevealed_def Let_def
      split: option.splits prod.splits)

text \<open>
  Claim C5. Membership in \<open>loadedImages\<close> and in \<open>revealed\<close> is one-way: from any
  state of the page, whatever happens next (calls of \<open>loadFull\<close>, \<open>markRevealed\<close> and
  \<open>note\<close>, load events, assignments), an identifier that is in \<open>loadedImages\<close> stays
  in it, and one that is in \<open>revealed\<close> stays in it.
\<close>

theorem membership_one_way:
  "(x \<in> loadedImages s \<longrightarrow> x \<in> loadedImages (run s evs)) \<and>
   (y \<in> revealed s \<longrightarrow> y \<in> revealed (run s evs))"
  by (induction evs arbitrary: s) (simp_all add: run_Nil run_Cons loaded_step revealed_step)

theorem membership_one_way_witness:
  "''aurora'' \<in> loadedImages (onload (hd gallery) None (initial_page (\<lambda>n. ''12:00:00'') (\<lambda>r. r))) \<and>
   ''aurora'' \<in> loadedImages
      (run (onload (hd gallery) None (initial_page (\<lambda>n. ''12:00:00'') (\<lambda>r. r)))
        [LoadFull (hd gallery) None, ImageLoaded 0, MarkRevealed ''precision'' None]) \<and>
   ''precision'' \<in> revealed (markRevealed ''precision'' None (initial_page (\<lambda>n. ''12:00:00'') (\<lambda>r. r))) \<and>
   ''precision'' \<in> revealed
      (run (markRevealed ''precision'' None (initial_page (\<lambda>n. ''12:00:00'') (\<lambda>r. r)))
        [MarkRevealed ''cleanup'' None, MarkRevealed ''precision'' None])"
proof -
  have l: "''aurora'' \<in> loadedImages (onload (hd gallery) None (initial_page (\<lambda>n. ''12:00:00'') (\<lambda>r. r)))"
    by (simp add: onload_def Let_def gallery_def)
  have r: "''precision'' \<in> revealed (markRevealed ''precision'' None (initial_page (\<lambda>n. ''12:00:00'') (\<lambda>r. r)))"
    by (simp add: markRevealed_def initial_page_def)
  show ?thesis
    using l r
      membership_one_way [where x = "''aurora''"
        and s = "onload (hd gallery) None (initial_page (\<lambda>n. ''12:00:00'') (\<lambda>r. r))"
        and evs = "[LoadFull (hd gallery) None, ImageLoaded 0, MarkRevealed ''precision'' None]"]
      membership_one_way [where y = "''precision''"
        and s = "markRevealed ''precision'' None (initial_page (\<lambda>n. ''12:00:00'') (\<lambda>r. r))"
        and evs = "[MarkRevealed ''cleanup'' None, MarkRevealed ''precision'' None]"]
    by blast
qed

text \<open>
  Claim C10. \<open>markRevealed\<close> is silent on repeats: for an id that is already in
  \<open>revealed\<close>, the call (with or without an entry) leaves the whole state of the page
  as it was; in particular \<open>revealed\<close> and \<open>logs\<close> are unchanged, and no record is
  added to the log.
\<close>

theorem markRevealed_repeat: "i \<in> revealed s \<Longrightarrow> markRevealed i eo s = s"
  by (simp add: markRevealed_def)

theorem markRevealed_repeat_witness:
  "''precision'' \<in> revealed (markRevealed ''precision'' None (initial_page (\<lambda>n. ''12:00:00'') (\<lambda>r. r))) \<and>
   markRevealed ''precision'' (Some \<lparr>target = 1, isIntersecting = True, intersectionRatio = 1\<rparr>)
     (markRevealed ''precision'' None (initial_page (\<lambda>n. ''12:00:00'') (\<lambda>r. r))) =
   markRevealed ''precision'' None (initial_page (\<lambda>n. ''12:00:00'') (\<lambda>r. r))"
proof -
  have r: "''precision'' \<in> revealed (markRevealed ''precision'' None (initial_page (\<lambda>n. ''12:00:00'') (\<lambda>r. r)))"
    by (simp add: markRevealed_def initial_page_def)
  show ?thesis
    using r markRevealed_repeat [OF r] by simp
qed

section \<open>The displayed image source\<close>

lemma gallery_ids: "distinct (map item_id gallery)"
  by (simp add: gallery_def)

lemma gallery_id_inj: "g \<in> set gallery \<Longrightarrow> h \<in> set gallery \<Longrightarrow> item_id g = item_id h \<Longrightarrow> g = h"
  using gallery_ids by (auto simp: distinct_map dest: inj_onD)

lemma initial_imageSrc: "g \<in> set gallery \<Longrightarrow> imageSrc (initial_page clk rnd) (item_id g) = Some (blur g)"
proof -
  assume g: "g \<in> set gallery"
  let ?ps = "rev (map (\<lambda>it. (item_id it, blur it)) gallery)"
  have "map fst ?ps = rev (map item_id gallery)"
    by (simp add: rev_map comp_def)
  then have "distinct (map fst ?ps)"
    using gallery_ids by simp
  moreover have "(item_id g, blur g) \<in> set ?ps"
    using g by auto
  ultimately have "map_of ?ps (item_id g) = Some (blur g)"
    by (rule map_of_is_SomeI)
  then show ?thesis by (simp add: initial_page_def)
qed


lemma note_entry_fields:
  "imageSrc (note_entry e i s) = imageSrc s"
  "images (note_entry e i s) = images s"
  "loadedImages (note_entry e i s) = loadedImages s"
  "revealed (note_entry e i s) = revealed s"
  "activeSection (note_entry e i s) = activeSection s"
  by (simp_all add: note_entry_def)

lemma onload_fields:
  "imageSrc (onload it eo s) = (imageSrc s)(item_id it \<mapsto> full it)"
  "images (onload it eo s) = images s"
  "loadedImages (onload it eo s) = insert (item_id it) (loadedImages s)"
  by (simp_all add: onload_def Let_def note_entry_fields split: option.splits)

lemma shows_gallery_iff:
  "shows_gallery s \<longleftrightarrow>
    (\<forall>w \<in> set (images s). fst w \<in> set gallery) \<and>
    (\<forall>g \<in> set gallery. imageSrc s (item_id g) = Some (blur g) \<or> imageSrc s (item_id g) = Some (full g))"
  by (simp add: shows_gallery_def list_all_iff)

lemma shows_gallery_onload:
  assumes "shows_gallery s" and "it \<in> set gallery"
  shows "shows_gallery (onload it eo s)"
  using assms gallery_id_inj [of _ it]
  by (auto simp: shows_gallery_iff onload_fields)

lemma shows_gallery_step:
  assumes "shows_gallery s" and "gallery_event ev"
  shows "shows_gallery (step s ev)"
proof (cases ev)
  case (Note e i)
  with assms show ?thesis by (simp add: shows_gallery_iff note_entry_fields)
next
  case (LoadFull it eo)
  with assms show ?thesis by (auto simp: shows_gallery_iff loadFull_def gallery_event_def)
next
  case (ImageLoaded k)
  show ?thesis
  proof (cases "k < length (images s)")
    case False
    with assms ImageLoaded show ?thesis by (simp add: image_loaded_def)
  next
    case True
    obtain it eo where w: "images s ! k = (it, eo)" by (cases "images s ! k")
    let ?s = "s\<lparr>images := take k (images s) @ drop (Suc k) (images s)\<rparr>"
    from True w have "(it, eo) \<in> set (images s)" by (metis nth_mem)
    with assms(1) have it: "it \<in> set gallery" by (auto simp: shows_gallery_iff)
    have "shows_gallery ?s"
      using assms(1) by (auto simp: shows_gallery_iff dest: in_set_takeD in_set_dropD)
    then have "shows_gallery (onload it eo ?s)" using it by (rule shows_gallery_onload)
    with True w ImageLoaded show ?thesis by (simp add: image_loaded_def)
  qed
next
  case (MarkRevealed i eo)
  with assms show ?thesis
    by (auto simp: shows_gallery_iff markRevealed_def note_entry_fields Let_def split: option.splits)
next
  case (SetActive a)
  with assms show ?thesis by (simp add: shows_gallery_iff)
next
  case (SetThreshold t)
  with assms show ?thesis by (simp add: shows_gallery_iff)
qed

lemma full_stays_step:
  assumes "shows_gallery s" and "g \<in> set gallery"
    and "imageSrc s (item_id g) = Some (full g)"
  shows "imageSrc (step s ev) (item_id g) = Some (full g)"
proof (cases ev)
  case (ImageLoaded k)
  show ?thesis
  proof (cases "k < length (images s)")
    case False
    with assms ImageLoaded show ?thesis by (simp add: image_loaded_def)
  next
    case True
    obtain it eo where w: "images s ! k = (it, eo)" by (cases "images s ! k")
    from True w have "(it, eo) \<in> set (images s)" by (metis nth_mem)
    with assms(1) have it: "it \<in> set gallery" by (auto simp: shows_gallery_iff)
    have "item_id it = item_id g \<Longrightarrow> it = g"
      using it assms(2) by (rule gallery_id_inj)
    with True w ImageLoaded assms(3) show ?thesis
      by (auto simp: image_loaded_def onload_fields)
  qed
qed (use assms in \<open>auto simp: note_entry_fields loadFull_def markRevealed_def Let_def split: option.splits\<close>)

lemma shows_gallery_run:
  "shows_gallery s \<Longrightarrow> list_all gallery_event evs \<Longrightarrow> shows_gallery (run s evs)"
  by (induction evs arbitrary: s) (simp_all add: run_Nil run_Cons shows_gallery_step)

lemma full_stays_run:
  "shows_gallery s \<Longrightarrow> list_all gallery_event evs \<Longrightarrow> g \<in> set gallery \<Longrightarrow>
   imageSrc s (item_id g) = Some (full g) \<Longrightarrow> imageSrc (run s evs) (item_id g) = Some (full g)"
  by (induction evs arbitrary: s) (simp_all add: run_Nil run_Cons shows_gallery_step full_stays_step)

lemma initial_images: "images (initial_page clk rnd) = []"
  by (simp add: initial_page_def)

lemma shows_gallery_initial: "shows_gallery (initial_page clk rnd)"
  by (simp add: shows_gallery_iff initial_imageSrc) (simp add: initial_page_def)

text \<open>
  Claim C6. For every gallery item, \<open>imageSrc[id]\<close> changes at most once: it starts as
  the item's \<open>blur\<close> URL; after any sequence of events of the page (\<open>loadFull\<close> being
  called on gallery items) it is the item's \<open>blur\<close> URL or its \<open>full\<close> URL and
  nothing else; and once it is the \<open>full\<close> URL it is the \<open>full\<close> URL after any
  further sequence of events.
\<close>

theorem imageSrc_one_transition:
  assumes "list_all gallery_event evs" and "list_all gallery_event evs'" and "g \<in> set gallery"
  shows "imageSrc (initial_page clk rnd) (item_id g) = Some (blur g) \<and>
    (imageSrc (run (initial_page clk rnd) evs) (item_id g) = Some (blur g) \<or>
     imageSrc (run (initial_page clk rnd) evs) (item_id g) = Some (full g)) \<and>
    (imageSrc (run (initial_page clk rnd) evs) (item_id g) = Some (full g) \<longrightarrow>
     imageSrc (run (run (initial_page clk rnd) evs) evs') (item_id g) = Some (full g))"
proof -
  have inv: "shows_gallery (run (initial_page clk rnd) evs)"
    using shows_gallery_initial assms(1) by (rule shows_gallery_run)
  show ?thesis
    using inv assms(2,3) initial_imageSrc [OF assms(3)] full_stays_run [OF inv assms(2,3)]
    by (auto simp: shows_gallery_iff)
qed

theorem imageSrc_one_transition_witness:
  "imageSrc (initial_page (\<lambda>n. ''12:00:00'') (\<lambda>r. r)) (item_id (hd gallery)) = Some (blur (hd gallery)) \<and>
   imageSrc (run (initial_page (\<lambda>n. ''12:00:00'') (\<lambda>r. r)) [LoadFull (hd gallery) None, ImageLoaded 0])
     (item_id (hd gallery)) = Some (full (hd gallery)) \<and>
   imageSrc
     (run (run (initial_page (\<lambda>n. ''12:00:00'') (\<lambda>r. r)) [LoadFull (hd gallery) None, ImageLoaded 0])
       [LoadFull (hd gallery) None, LoadFull (gallery ! 1) None, ImageLoaded 0])
     (item_id (hd gallery)) = Some (full (hd gallery))"
proof -
  have g: "hd gallery \<in> set gallery" and h: "gallery ! 1 \<in> set gallery"
    by (simp_all add: gallery_def)
  have e1: "list_all gallery_event [LoadFull (hd gallery) None, ImageLoaded 0]"
    using g by (simp add: gallery_event_def)
  have e2: "list_all gallery_event
      [LoadFull (hd gallery) None, LoadFull (gallery ! 1) None, ImageLoaded 0]"
    using g h by (simp add: gallery_event_def)
  have blur_full: "blur (hd gallery) \<noteq> full (hd gallery)"
    by (simp add: gallery_def)
  have now_full: "imageSrc (run (initial_page (\<lambda>n. ''12:00:00'') (\<lambda>r. r)) [LoadFull (hd gallery) None, ImageLoaded 0])
     (item_id (hd gallery)) = Some (full (hd gallery))"
    using blur_full
    by (simp add: run_def loadFull_def image_loaded_def onload_def Let_def initial_imageSrc [OF g]
        initial_images)
  show ?thesis
    using now_full imageSrc_one_transition [OF e1 e2 g, of "\<lambda>n. ''12:00:00''" "\<lambda>r. r"]
    by simp
qed

section \<open>The \<open>intersect\<close> action\<close>

subsection \<open>Attached actions\<close>

lemma attached_iff:
  "attached a \<longleftrightarrow>
    (\<exists>i. observer a = Some i \<and> Suc i = length (observers a) \<and>
         targets (observers a ! i) \<subseteq> {node a} \<and>
         (\<forall>j<i. targets (observers a ! j) = {}))"
  by (auto simp: attached_def list_all_length split: option.splits)

lemma init_first:
  assumes "observer a = None" and "observers a = []"
  shows "init a =
    (case constructor_throws (margin_parses a) (opts a) of
       Some err \<Rightarrow> (Some err, a\<lparr>observers := []\<rparr>)
     | None \<Rightarrow>
         (None, a\<lparr>observer := Some 0,
                  observers := [\<lparr>options = opts a, targets = {node a}\<rparr>]\<rparr>))"
  using assms by (simp add: init_def Let_def observe_def modify_def split: option.splits)

lemma init_again:
  assumes "observer a = Some i" and "Suc i = length (observers a)"
  shows "init a =
    (case constructor_throws (margin_parses a) (opts a) of
       Some err \<Rightarrow> (Some err, a\<lparr>observers := (observers a)[i := (observers a ! i)\<lparr>targets := {}\<rparr>]\<rparr>)
     | None \<Rightarrow>
         (None, a\<lparr>observer := Some (Suc i),
                  observers := (observers a)[i := (observers a ! i)\<lparr>targets := {}\<rparr>]
                    @ [\<lparr>options = opts a, targets = {node a}\<rparr>]\<rparr>))"
  using assms(1) assms(2) [symmetric]
  by (simp add: init_def Let_def observe_def disconnect_def modify_def nth_append
      list_update_append split: option.splits)

lemma init_frame:
  "node (snd (init a)) = node a" "opts (snd (init a)) = opts a"
  "current (snd (init a)) = current a" "margin_parses (snd (init a)) = margin_parses a"
  by (simp_all add: init_def Let_def split: option.splits)

lemma fst_init: "fst (init a) = constructor_throws (margin_parses a) (opts a)"
  by (simp add: init_def Let_def split: option.splits)

lemma intersect_Some:
  "intersect parses n (Some p) =
    (case constructor_throws parses
            \<lparr>init_root = nullish_null (root p) None,
             init_rootMargin = nullish (rootMargin p) ''0px'',
             init_threshold = nullish (threshold p) (Num 0.25)\<rparr> of
       Some err \<Rightarrow> Inl err
     | None \<Rightarrow>
         Inr \<lparr>node = n,
              opts = \<lparr>init_root = nullish_null (root p) None,
                      init_rootMargin = nullish (rootMargin p) ''0px'',
                      init_threshold = nullish (threshold p) (Num 0.25)\<rparr>,
              current = p, observer = Some 0,
              observers =
                [\<lparr>options = \<lparr>init_root = nullish_null (root p) None,
                              init_rootMargin = nullish (rootMargin p) ''0px'',
                              init_threshold = nullish (threshold p) (Num 0.25)\<rparr>,
                  targets = {n}\<rparr>],
              margin_parses = parses\<rparr>)"
  by (simp add: intersect_def Let_def init_first split: option.splits)

lemma intersect_None: "intersect parses n None = intersect parses n (Some no_params)"
  by (simp add: intersect_def)

lemma intersect_frame:
  assumes "intersect parses n po = Inr a"
  shows "node a = n" and "observer a = Some 0" and "watched a = {n}"
    and "margin_parses a = parses"
    and "observers a = [\<lparr>options = opts a, targets = {n}\<rparr>]"
    and "current a = (case po of None \<Rightarrow> no_params | Some p \<Rightarrow> p)"
    and "constructor_throws parses (opts a) = None"
  using assms
  by (cases po; auto simp: intersect_None intersect_Some watched_def split: option.splits)+

lemma attached_intersect: "intersect parses n po = Inr a \<Longrightarrow> attached a"
  using intersect_frame(1,2,5) [of parses n po a] by (simp add: attached_def)

lemma attached_init: "attached a \<Longrightarrow> attached (snd (init a))"
  by (auto simp: attached_iff init_again nth_append nth_list_update split: option.splits)

lemma attached_update:
  assumes "attached a"
  shows "attached (snd (update next a))"
  unfolding update_def by (rule attached_init) (use assms in \<open>auto simp: attached_iff\<close>)

lemma attached_destroy: "attached a \<Longrightarrow> attached (destroy a)"
  by (auto simp: attached_iff destroy_def disconnect_def modify_def nth_list_update)

lemma attached_on_entry: "attached a \<Longrightarrow> attached (fst (on_entry e (a, s)))"
  by (auto simp: attached_iff on_entry_def Let_def unobserve_def modify_def nth_list_update)

lemma attached_callback: "attached (fst x) \<Longrightarrow> attached (fst (callback es x))"
proof (induction es arbitrary: x)
  case Nil
  then show ?case by simp
next
  case (Cons e es)
  then show ?case using attached_on_entry [of "fst x" e "snd x"] by simp
qed

lemma attached_notify: "attached (fst x) \<Longrightarrow> attached (fst (notify i es x))"
  by (simp add: notify_def Let_def attached_callback)

lemma attached_step: "attached (fst x) \<Longrightarrow> attached (fst (action_step x ev))"
  by (cases ev) (simp_all add: attached_update attached_destroy attached_notify)

lemma attached_run: "attached (fst x) \<Longrightarrow> attached (fst (action_run x evs))"
  by (induction evs arbitrary: x) (simp_all add: action_run_def attached_step)

lemma attached_reached:
  "intersect parses n po = Inr a0 \<Longrightarrow> attached (fst (action_run (a0, s0) evs))"
  by (rule attached_run) (simp add: attached_intersect)

lemma on_entry_frame:
  "node (fst (on_entry e x)) = node (fst x)"
  "opts (fst (on_entry e x)) = opts (fst x)"
  "current (fst (on_entry e x)) = current (fst x)"
  "observer (fst (on_entry e x)) = observer (fst x)"
  "margin_parses (fst (on_entry e x)) = margin_parses (fst x)"
  by (cases x; simp add: on_entry_def Let_def split: option.splits)+

lemma callback_frame:
  "node (fst (callback es x)) = node (fst x) \<and>
   opts (fst (callback es x)) = opts (fst x) \<and>
   current (fst (callback es x)) = current (fst x) \<and>
   observer (fst (callback es x)) = observer (fst x) \<and>
   margin_parses (fst (callback es x)) = margin_parses (fst x)"
  by (induction es arbitrary: x) (simp_all add: on_entry_frame)

lemma destroy_frame:
  "node (destroy a) = node a" "opts (destroy a) = opts a" "current (destroy a) = current a"
  "observer (destroy a) = observer a" "margin_parses (destroy a) = margin_parses a"
  by (simp_all add: destroy_def split: option.splits)

lemma margin_parses_step: "margin_parses (fst (action_step x ev)) = margin_parses (fst x)"
  by (cases ev)
    (simp_all add: update_def init_frame destroy_frame notify_def Let_def callback_frame)

lemma margin_parses_run: "margin_parses (fst (action_run x evs)) = margin_parses (fst x)"
  by (induction evs arbitrary: x) (simp_all add: action_run_def margin_parses_step)


subsection \<open>Attaching\<close>

text \<open>
  Claim C9. When the action is attached (\<open>intersect\<close> returns), its observer watches
  \<open>node\<close>, and each of \<open>root\<close>, \<open>rootMargin\<close> and \<open>threshold\<close> that the params
  omit has its default, \<open>null\<close>, \<open>'0px'\<close> and \<open>0.25\<close>, whatever the other two
  are; one that the params give is taken from them. Without params all three are the
  defaults. \<open>intersect\<close> returns exactly when the constructor accepts these options;
  without params, exactly when the browser parses \<open>'0px'\<close>.
\<close>

theorem attach_defaults:
  "(\<forall>a. intersect parses n (None :: 'st IntersectionParams option) = Inr a \<longrightarrow>
      latest a =
        Some \<lparr>options = \<lparr>init_root = None, init_rootMargin = ''0px'', init_threshold = Num 0.25\<rparr>,
              targets = {n}\<rparr>) \<and>
   (\<forall>a. intersect parses n (Some (p :: 'st IntersectionParams)) = Inr a \<longrightarrow>
      (\<exists>ob. latest a = Some ob \<and> targets ob = {n} \<and>
        (root p = Absent \<longrightarrow> init_root (options ob) = None) \<and>
        (rootMargin p = Absent \<longrightarrow> init_rootMargin (options ob) = ''0px'') \<and>
        (threshold p = Absent \<longrightarrow> init_threshold (options ob) = Num 0.25) \<and>
        (\<forall>r. root p = Value r \<longrightarrow> init_root (options ob) = r) \<and>
        (\<forall>m. rootMargin p = Value m \<longrightarrow> init_rootMargin (options ob) = m) \<and>
        (\<forall>t. threshold p = Value t \<longrightarrow> init_threshold (options ob) = t))) \<and>
   ((\<exists>a. intersect parses n (None :: 'st IntersectionParams option) = Inr a) \<longleftrightarrow>
      parses ''0px'') \<and>
   ((\<exists>a. intersect parses n (Some p) = Inr a) \<longleftrightarrow>
      constructor_throws parses
        \<lparr>init_root = nullish_null (root p) None,
         init_rootMargin = nullish (rootMargin p) ''0px'',
         init_threshold = nullish (threshold p) (Num 0.25)\<rparr> = None)"
proof -
  have none: "\<forall>a. intersect parses n (None :: 'st IntersectionParams option) = Inr a \<longrightarrow>
      latest a =
        Some \<lparr>options = \<lparr>init_root = None, init_rootMargin = ''0px'', init_threshold = Num 0.25\<rparr>,
              targets = {n}\<rparr>"
    by (auto simp: intersect_None intersect_Some latest_def no_params_def nullish_def
        nullish_null_def split: option.splits)
  have some: "\<forall>a. intersect parses n (Some p) = Inr a \<longrightarrow>
      (\<exists>ob. latest a = Some ob \<and> targets ob = {n} \<and>
        (root p = Absent \<longrightarrow> init_root (options ob) = None) \<and>
        (rootMargin p = Absent \<longrightarrow> init_rootMargin (options ob) = ''0px'') \<and>
        (threshold p = Absent \<longrightarrow> init_threshold (options ob) = Num 0.25) \<and>
        (\<forall>r. root p = Value r \<longrightarrow> init_root (options ob) = r) \<and>
        (\<forall>m. rootMargin p = Value m \<longrightarrow> init_rootMargin (options ob) = m) \<and>
        (\<forall>t. threshold p = Value t \<longrightarrow> init_threshold (options ob) = t))"
    by (auto simp: intersect_Some latest_def nullish_def nullish_null_def split: option.splits)
  have ret0: "(\<exists>a. intersect parses n (None :: 'st IntersectionParams option) = Inr a) \<longleftrightarrow>
      parses ''0px''"
    by (auto simp: intersect_None intersect_Some no_params_def nullish_def nullish_null_def
        constructor_throws_def threshold_values_def split: option.splits)
  have ret: "(\<exists>a. intersect parses n (Some p) = Inr a) \<longleftrightarrow>
      constructor_throws parses
        \<lparr>init_root = nullish_null (root p) None,
         init_rootMargin = nullish (rootMargin p) ''0px'',
         init_threshold = nullish (threshold p) (Num 0.25)\<rparr> = None"
    by (auto simp: intersect_Some split: option.splits)
  show ?thesis
    by (intro conjI none some ret0 ret)
qed

theorem attach_defaults_witness:
  "(\<exists>a ob. intersect example_parses 3
        (Some (no_params\<lparr>rootMargin := Value ''10px''\<rparr> :: unit IntersectionParams)) = Inr a \<and>
      latest a = Some ob \<and> targets ob = {3} \<and> init_root (options ob) = None \<and>
      init_rootMargin (options ob) = ''10px'' \<and> init_threshold (options ob) = Num 0.25) \<and>
   (\<exists>a. intersect example_parses 3 (None :: unit IntersectionParams option) = Inr a \<and>
      latest a =
        Some \<lparr>options = \<lparr>init_root = None, init_rootMargin = ''0px'', init_threshold = Num 0.25\<rparr>,
              targets = {3}\<rparr>) \<and>
   intersect example_parses 3
        (Some (no_params\<lparr>threshold := Value (Num 2)\<rparr> :: unit IntersectionParams)) = Inl RangeError \<and>
   intersect example_parses 3
        (Some (no_params\<lparr>rootMargin := Value ''wide''\<rparr> :: unit IntersectionParams)) = Inl SyntaxError"
proof -
  let ?p = "no_params\<lparr>rootMargin := Value ''10px''\<rparr> :: unit IntersectionParams"
  note d = attach_defaults [of example_parses 3 ?p]
  have given: "root ?p = Absent" "rootMargin ?p = Value ''10px''" "threshold ?p = Absent"
    by (simp_all add: no_params_def)
  have ok: "constructor_throws example_parses
        \<lparr>init_root = nullish_null (root ?p) None,
         init_rootMargin = nullish (rootMargin ?p) ''0px'',
         init_threshold = nullish (threshold ?p) (Num 0.25)\<rparr> = None"
    by (simp add: no_params_def nullish_def nullish_null_def constructor_throws_def
        threshold_values_def example_parses_def)
  from d [THEN conjunct2, THEN conjunct2, THEN conjunct2] ok
  obtain a where a: "intersect example_parses 3 (Some ?p) = Inr a"
    by auto
  from d [THEN conjunct2, THEN conjunct1] a given
  obtain ob where "latest a = Some ob" "targets ob = {3}"
    "init_root (options ob) = None" "init_rootMargin (options ob) = ''10px''"
    "init_threshold (options ob) = Num 0.25"
    by auto
  with a have first: "\<exists>a ob. intersect example_parses 3 (Some ?p) = Inr a \<and>
      latest a = Some ob \<and> targets ob = {3} \<and> init_root (options ob) = None \<and>
      init_rootMargin (options ob) = ''10px'' \<and> init_threshold (options ob) = Num 0.25"
    by blast
  have "example_parses ''0px''"
    by (simp add: example_parses_def)
  with d [THEN conjunct2, THEN conjunct2, THEN conjunct1]
  obtain b where b: "intersect example_parses 3 (None :: unit IntersectionParams option) = Inr b"
    by auto
  with d [THEN conjunct1] have "latest b =
        Some \<lparr>options = \<lparr>init_root = None, init_rootMargin = ''0px'', init_threshold = Num 0.25\<rparr>,
              targets = {3}\<rparr>"
    by auto
  with b have second: "\<exists>a. intersect example_parses 3 (None :: unit IntersectionParams option) = Inr a \<and>
      latest a =
        Some \<lparr>options = \<lparr>init_root = None, init_rootMargin = ''0px'', init_threshold = Num 0.25\<rparr>,
              targets = {3}\<rparr>"
    by blast
  have third: "intersect example_parses 3
        (Some (no_params\<lparr>threshold := Value (Num 2)\<rparr> :: unit IntersectionParams)) = Inl RangeError"
    by (simp add: intersect_Some no_params_def nullish_def nullish_null_def constructor_throws_def
        threshold_values_def example_parses_def)
  have fourth: "intersect example_parses 3
        (Some (no_params\<lparr>rootMargin := Value ''wide''\<rparr> :: unit IntersectionParams)) = Inl SyntaxError"
    by (simp add: intersect_Some no_params_def nullish_def nullish_null_def constructor_throws_def
        threshold_values_def example_parses_def)
  show ?thesis
    by (intro conjI first second third fourth)
qed


subsection \<open>Updating\<close>

lemma intersect_opts:
  "intersect parses n (Some p) = Inr a \<Longrightarrow>
   opts a = \<lparr>init_root = nullish_null (root p) None,
             init_rootMargin = nullish (rootMargin p) ''0px'',
             init_threshold = nullish (threshold p) (Num 0.25)\<rparr>"
  by (auto simp: intersect_Some split: option.splits)

lemma merged_opts:
  "\<lparr>init_root = nullish_null (root next) (nullish_null (Value (init_root ini)) None),
    init_rootMargin = nullish (rootMargin next) (nullish (Value (init_rootMargin ini)) ''0px''),
    init_threshold = nullish (threshold next) (init_threshold ini)\<rparr> =
   \<lparr>init_root = (case root next of Value (Some r) \<Rightarrow> Some r | _ \<Rightarrow> init_root ini),
    init_rootMargin = (case rootMargin next of Value m \<Rightarrow> m | _ \<Rightarrow> init_rootMargin ini),
    init_threshold = (case threshold next of Value t \<Rightarrow> t | _ \<Rightarrow> init_threshold ini)\<rparr>"
  by (simp add: nullish_def nullish_null_def split: optional.splits option.splits)

lemma update_frame:
  "node (snd (update next a)) = node a"
  "margin_parses (snd (update next a)) = margin_parses a"
  "current (snd (update next a)) = spread (current a) next"
  "opts (snd (update next a)) =
     \<lparr>init_root = (case root next of Value (Some r) \<Rightarrow> Some r | _ \<Rightarrow> init_root (opts a)),
      init_rootMargin = (case rootMargin next of Value m \<Rightarrow> m | _ \<Rightarrow> init_rootMargin (opts a)),
      init_threshold = (case threshold next of Value t \<Rightarrow> t | _ \<Rightarrow> init_threshold (opts a))\<rparr>"
  "fst (update next a) = constructor_throws (margin_parses a) (opts (snd (update next a)))"
  by (simp_all add: update_def init_frame fst_init merged_opts)

lemma update_observers:
  assumes "attached a"
  shows "list_all (\<lambda>ob. targets ob = {})
      (take (length (observers a)) (observers (snd (update next a))))"
    and "fst (update next a) = None \<Longrightarrow>
      length (observers (snd (update next a))) = Suc (length (observers a)) \<and>
      latest (snd (update next a)) =
        Some \<lparr>options = opts (snd (update next a)), targets = {node a}\<rparr>"
    and "fst (update next a) \<noteq> None \<Longrightarrow>
      observer (snd (update next a)) = observer a \<and>
      length (observers (snd (update next a))) = length (observers a) \<and>
      watched (snd (update next a)) = {}"
proof -
  from assms obtain i where i: "observer a = Some i" "Suc i = length (observers a)"
    "\<forall>j<i. targets (observers a ! j) = {}"
    by (auto simp: attached_iff)
  let ?a1 = "a\<lparr>current := spread (current a) next,
         opts :=
           \<lparr>init_root = nullish_null (root next) (nullish_null (Value (init_root (opts a))) None),
            init_rootMargin =
              nullish (rootMargin next) (nullish (Value (init_rootMargin (opts a))) ''0px''),
            init_threshold = nullish (threshold next) (init_threshold (opts a))\<rparr>\<rparr>"
  have u: "update next a = init ?a1"
    by (simp add: update_def)
  have ia: "init ?a1 =
    (case constructor_throws (margin_parses ?a1) (opts ?a1) of
       Some err \<Rightarrow> (Some err, ?a1\<lparr>observers := (observers ?a1)[i := (observers ?a1 ! i)\<lparr>targets := {}\<rparr>]\<rparr>)
     | None \<Rightarrow>
         (None, ?a1\<lparr>observer := Some (Suc i),
                  observers := (observers ?a1)[i := (observers ?a1 ! i)\<lparr>targets := {}\<rparr>]
                    @ [\<lparr>options = opts ?a1, targets = {node ?a1}\<rparr>]\<rparr>))"
    by (rule init_again) (simp_all add: i)
  have old: "list_all (\<lambda>ob. targets ob = {}) ((observers a)[i := (observers a ! i)\<lparr>targets := {}\<rparr>])"
    using i(2,3) by (auto simp: list_all_length nth_list_update less_Suc_eq)
  show "list_all (\<lambda>ob. targets ob = {})
      (take (length (observers a)) (observers (snd (update next a))))"
    unfolding u ia using old by (simp split: option.splits)
  show "length (observers (snd (update next a))) = Suc (length (observers a)) \<and>
      latest (snd (update next a)) =
        Some \<lparr>options = opts (snd (update next a)), targets = {node a}\<rparr>"
    if "fst (update next a) = None"
    using that i(2) [symmetric] unfolding u ia
    by (simp add: latest_def nth_append split: option.splits)
  show "observer (snd (update next a)) = observer a \<and>
      length (observers (snd (update next a))) = length (observers a) \<and>
      watched (snd (update next a)) = {}"
    if "fst (update next a) \<noteq> None"
    using that i(1,2) unfolding u ia
    by (auto simp: watched_def split: option.splits)
qed

text \<open>
  Claim C2, as amended. On \<open>update\<close> of an attached action the previous observer is
  disconnected, and \<open>opts\<close> becomes the merge of the previous \<open>opts\<close> with the new
  params: \<open>root\<close>, \<open>rootMargin\<close> and \<open>threshold\<close> are the new params' value where
  that is a value other than \<open>null\<close> and \<open>undefined\<close>, and the previous one
  otherwise. \<open>once\<close>, \<open>onEnter\<close> and \<open>onLeave\<close> are the new params' key where the
  key is there, and the previous one where it is absent. When the constructor accepts the
  merged options, \<open>update\<close> returns with a new observer, constructed with them and
  watching \<open>node\<close>. When it does not, \<open>update\<close> throws, and no observer of the
  action watches anything.
\<close>

theorem update_recreates:
  assumes "intersect parses n po = Inr a0" and "a = fst (action_run (a0, s0) evs)"
  shows
   "list_all (\<lambda>ob. targets ob = {})
      (take (length (observers a)) (observers (snd (update next a)))) \<and>
    opts (snd (update next a)) =
      \<lparr>init_root = (case root next of Value (Some r) \<Rightarrow> Some r | _ \<Rightarrow> init_root (opts a)),
       init_rootMargin = (case rootMargin next of Value m \<Rightarrow> m | _ \<Rightarrow> init_rootMargin (opts a)),
       init_threshold = (case threshold next of Value t \<Rightarrow> t | _ \<Rightarrow> init_threshold (opts a))\<rparr> \<and>
    once (current (snd (update next a))) =
      (case once next of Absent \<Rightarrow> once (current a) | _ \<Rightarrow> once next) \<and>
    onEnter (current (snd (update next a))) =
      (case onEnter next of Absent \<Rightarrow> onEnter (current a) | _ \<Rightarrow> onEnter next) \<and>
    onLeave (current (snd (update next a))) =
      (case onLeave next of Absent \<Rightarrow> onLeave (current a) | _ \<Rightarrow> onLeave next) \<and>
    fst (update next a) = constructor_throws parses (opts (snd (update next a))) \<and>
    (fst (update next a) = None \<longrightarrow>
       length (observers (snd (update next a))) = Suc (length (observers a)) \<and>
       latest (snd (update next a)) =
         Some \<lparr>options = opts (snd (update next a)), targets = {node a}\<rparr>) \<and>
    (fst (update next a) \<noteq> None \<longrightarrow>
       observer (snd (update next a)) = observer a \<and>
       length (observers (snd (update next a))) = length (observers a) \<and>
       watched (snd (update next a)) = {})"
proof -
  have att: "attached a"
    unfolding assms(2) using assms(1) by (rule attached_reached)
  have mp: "margin_parses a = parses"
    unfolding assms(2) by (simp add: margin_parses_run intersect_frame(4) [OF assms(1)])
  have cur: "once (current (snd (update next a))) =
      (case once next of Absent \<Rightarrow> once (current a) | _ \<Rightarrow> once next)"
    "onEnter (current (snd (update next a))) =
      (case onEnter next of Absent \<Rightarrow> onEnter (current a) | _ \<Rightarrow> onEnter next)"
    "onLeave (current (snd (update next a))) =
      (case onLeave next of Absent \<Rightarrow> onLeave (current a) | _ \<Rightarrow> onLeave next)"
    by (simp_all add: update_frame(3) spread_def spread_key_def)
  have thr: "fst (update next a) = constructor_throws parses (opts (snd (update next a)))"
    using update_frame(5) [of "next" a] by (simp only: mp)
  show ?thesis
    using update_observers [OF att, of "next"] update_frame(4) [of "next" a] cur thr
    by blast
qed

theorem update_recreates_witness:
  "\<exists>a. intersect example_parses 3
        (Some (no_params\<lparr>threshold := Value (Num 0.35), once := Value False\<rparr>
          :: unit IntersectionParams)) = Inr a \<and>
     fst (update (no_params\<lparr>threshold := Value (Num 0.5)\<rparr>) a) = None \<and>
     latest (snd (update (no_params\<lparr>threshold := Value (Num 0.5)\<rparr>) a)) =
       Some \<lparr>options = \<lparr>init_root = None, init_rootMargin = ''0px'', init_threshold = Num 0.5\<rparr>,
             targets = {3}\<rparr> \<and>
     targets (observers (snd (update (no_params\<lparr>threshold := Value (Num 0.5)\<rparr>) a)) ! 0) = {} \<and>
     once (current (snd (update (no_params\<lparr>threshold := Value (Num 0.5)\<rparr>) a))) = Value False \<and>
     fst (update (no_params\<lparr>threshold := Value (Num 2)\<rparr>) a) = Some RangeError \<and>
     watched (snd (update (no_params\<lparr>threshold := Value (Num 2)\<rparr>) a)) = {}"
proof -
  let ?p = "no_params\<lparr>threshold := Value (Num 0.35), once := Value False\<rparr> :: unit IntersectionParams"
  let ?good = "no_params\<lparr>threshold := Value (Num 0.5)\<rparr> :: unit IntersectionParams"
  let ?bad = "no_params\<lparr>threshold := Value (Num 2)\<rparr> :: unit IntersectionParams"
  obtain a where att: "intersect example_parses 3 (Some ?p) = Inr a"
    by (simp add: intersect_Some no_params_def nullish_def nullish_null_def constructor_throws_def
        threshold_values_def example_parses_def)
  have reached: "a = fst (action_run (a, ()) [])"
    by (simp add: action_run_def)
  have a: "observer a = Some 0" "node a = 3" "current a = ?p"
    "opts a = \<lparr>init_root = None, init_rootMargin = ''0px'', init_threshold = Num 0.35\<rparr>"
    "length (observers a) = 1"
    using intersect_frame(1,2,5,6) [OF att] intersect_opts [OF att]
    by (simp_all add: no_params_def nullish_def nullish_null_def)
  note g = update_recreates [OF att reached, of ?good]
  note b = update_recreates [OF att reached, of ?bad]
  have gopts: "opts (snd (update ?good a)) =
      \<lparr>init_root = None, init_rootMargin = ''0px'', init_threshold = Num 0.5\<rparr>"
    unfolding g [THEN conjunct2, THEN conjunct1] by (simp add: a(4) no_params_def)
  from g have "fst (update ?good a) = constructor_throws example_parses (opts (snd (update ?good a)))"
    by blast
  then have gret: "fst (update ?good a) = None"
    unfolding gopts by (simp add: constructor_throws_def threshold_values_def example_parses_def)
  from g gret have "latest (snd (update ?good a)) =
         Some \<lparr>options = opts (snd (update ?good a)), targets = {node a}\<rparr>"
    by blast
  then have glatest: "latest (snd (update ?good a)) =
       Some \<lparr>options = \<lparr>init_root = None, init_rootMargin = ''0px'', init_threshold = Num 0.5\<rparr>,
             targets = {3}\<rparr>"
    by (simp only: gopts a(2))
  from g gret have glen: "length (observers (snd (update ?good a))) = Suc (length (observers a))"
    by blast
  from g have "list_all (\<lambda>ob. targets ob = {})
      (take (length (observers a)) (observers (snd (update ?good a))))"
    by (rule conjunct1)
  then have gold: "targets (observers (snd (update ?good a)) ! 0) = {}"
    using glen by (auto simp: a(5) list_all_length)
  from g have "once (current (snd (update ?good a))) =
      (case once ?good of Absent \<Rightarrow> once (current a) | _ \<Rightarrow> once ?good)"
    by blast
  then have gonce: "once (current (snd (update ?good a))) = Value False"
    by (simp add: a(3) no_params_def)
  have bopts: "opts (snd (update ?bad a)) =
      \<lparr>init_root = None, init_rootMargin = ''0px'', init_threshold = Num 2\<rparr>"
    unfolding b [THEN conjunct2, THEN conjunct1] by (simp add: a(4) no_params_def)
  from b have "fst (update ?bad a) = constructor_throws example_parses (opts (snd (update ?bad a)))"
    by blast
  then have bthrows: "fst (update ?bad a) = Some RangeError"
    unfolding bopts by (simp add: constructor_throws_def threshold_values_def example_parses_def)
  from b bthrows have bwatched: "watched (snd (update ?bad a)) = {}"
    by simp
  show ?thesis
    by (intro exI [of _ a] conjI att gret glatest gold gonce bthrows bwatched)
qed

text \<open>
  Claim C2 as stated fails: \<open>root: null\<close> is a field present in the new params, and it
  does not take effect. \<open>update\<close> returns, and the new observer has the previous root
  element.
\<close>

theorem update_null_root_counterexample:
  "\<exists>a. intersect example_parses 3
        (Some (no_params\<lparr>root := Value (Some 7)\<rparr> :: unit IntersectionParams)) = Inr a \<and>
     root (no_params\<lparr>root := Value None\<rparr> :: unit IntersectionParams) = Value None \<and>
     fst (update (no_params\<lparr>root := Value None\<rparr>) a) = None \<and>
     latest (snd (update (no_params\<lparr>root := Value None\<rparr>) a)) =
       Some \<lparr>options = \<lparr>init_root = Some 7, init_rootMargin = ''0px'', init_threshold = Num 0.25\<rparr>,
             targets = {3}\<rparr>"
proof -
  let ?p = "no_params\<lparr>root := Value (Some 7)\<rparr> :: unit IntersectionParams"
  let ?next = "no_params\<lparr>root := Value None\<rparr> :: unit IntersectionParams"
  obtain a where att: "intersect example_parses 3 (Some ?p) = Inr a"
    by (simp add: intersect_Some no_params_def nullish_def nullish_null_def constructor_throws_def
        threshold_values_def example_parses_def)
  have a: "observer a = Some 0" "node a = 3" "margin_parses a = example_parses"
    "observers a = [\<lparr>options = opts a, targets = {3}\<rparr>]"
    "opts a = \<lparr>init_root = Some 7, init_rootMargin = ''0px'', init_threshold = Num 0.25\<rparr>"
    using intersect_frame(1,2,4,5) [OF att] intersect_opts [OF att]
    by (simp_all add: no_params_def nullish_def nullish_null_def)
  have o: "opts (snd (update ?next a)) =
      \<lparr>init_root = Some 7, init_rootMargin = ''0px'', init_threshold = Num 0.25\<rparr>"
    by (simp add: update_frame(4) a(5) no_params_def)
  have ret: "fst (update ?next a) = None"
    by (simp add: update_frame(5) o a(3) constructor_throws_def threshold_values_def
        example_parses_def)
  have new: "latest (snd (update ?next a)) =
       Some \<lparr>options = \<lparr>init_root = Some 7, init_rootMargin = ''0px'', init_threshold = Num 0.25\<rparr>,
             targets = {3}\<rparr>"
    using update_observers(2) [OF attached_intersect [OF att], of ?next] ret by (simp add: a(2) o)
  have null: "root ?next = Value None"
    by (simp add: no_params_def)
  show ?thesis
    by (intro exI [of _ a] conjI att null ret new)
qed


subsection \<open>Detaching\<close>

lemma notify_nothing:
  assumes "list_all (\<lambda>ob. targets ob = {}) (observers (fst x))"
  shows "notify i es x = x"
proof -
  have "filter (\<lambda>e. i < length (observers (fst x)) \<and> target e \<in> targets (observers (fst x) ! i)) es = []"
    using assms by (auto simp: list_all_length filter_empty_conv)
  then show ?thesis by (simp add: notify_def Let_def)
qed

lemma notify_run_nothing:
  assumes "list_all (\<lambda>ob. targets ob = {}) (observers (fst x))"
  shows "action_run x (map (\<lambda>p. Notify (fst p) (snd p)) ns) = x"
  using assms by (induction ns) (simp_all add: action_run_def notify_nothing)

lemma destroy_attached:
  assumes "attached a"
  shows "list_all (\<lambda>ob. targets ob = {}) (observers (destroy a))"
    and "watched (destroy a) = {}"
    and "map options (observers (destroy a)) = map options (observers a)"
proof -
  from assms obtain i where i: "observer a = Some i" "Suc i = length (observers a)"
    "\<forall>j<i. targets (observers a ! j) = {}"
    by (auto simp: attached_iff)
  have d: "destroy a = a\<lparr>observers := (observers a)[i := (observers a ! i)\<lparr>targets := {}\<rparr>]\<rparr>"
    using i(2) [symmetric] by (simp add: destroy_def i(1) disconnect_def modify_def)
  show "list_all (\<lambda>ob. targets ob = {}) (observers (destroy a))"
    using i(2,3) by (auto simp: d list_all_length nth_list_update)
  show "watched (destroy a) = {}"
    using i(2) [symmetric] by (simp add: d watched_def i(1))
  show "map options (observers (destroy a)) = map options (observers a)"
    using i(2) [symmetric] by (simp add: d map_update) (simp add: list_eq_iff_nth_eq nth_list_update)
qed

lemma destroy_others:
  "observer a \<noteq> Some j \<Longrightarrow> observers (destroy a) ! j = observers a ! j"
  by (auto simp: destroy_def disconnect_def modify_def split: option.splits)

text \<open>
  Claim C8. \<open>destroy\<close> on an attached action disconnects the current observer: after it
  no observer of the action watches anything, so whatever the browser notifies afterwards,
  no callback runs and neither the action nor the state the callbacks write changes. Nothing
  else changes: \<open>node\<close>, \<open>opts\<close>, \<open>current\<close> and \<open>observer\<close> are as before, every
  observer keeps its options, and the other observers are untouched.
\<close>

theorem destroy_stops_watching:
  assumes "intersect parses n po = Inr a0" and "a = fst (action_run (a0, s0) evs)"
  shows "watched (destroy a) = {} \<and>
    list_all (\<lambda>ob. targets ob = {}) (observers (destroy a)) \<and>
    action_run (destroy a, s) (map (\<lambda>p. Notify (fst p) (snd p)) ns) = (destroy a, s) \<and>
    node (destroy a) = node a \<and> opts (destroy a) = opts a \<and> current (destroy a) = current a \<and>
    observer (destroy a) = observer a \<and>
    map options (observers (destroy a)) = map options (observers a) \<and>
    (\<forall>j. observer a \<noteq> Some j \<longrightarrow> observers (destroy a) ! j = observers a ! j)"
proof -
  have att: "attached a"
    unfolding assms(2) using assms(1) by (rule attached_reached)
  have quiet: "action_run (destroy a, s) (map (\<lambda>p. Notify (fst p) (snd p)) ns) = (destroy a, s)"
    by (rule notify_run_nothing) (simp add: destroy_attached(1) [OF att])
  show ?thesis
    using destroy_attached [OF att] quiet by (simp add: destroy_frame destroy_others)
qed

theorem destroy_stops_watching_witness:
  "\<exists>a0. intersect example_parses 3 (Some (recording_params Absent)) = Inr a0 \<and>
     watched (fst (action_run (a0, [])
       [Notify 0 [\<lparr>target = 3, isIntersecting = True, intersectionRatio = 1\<rparr>]])) = {3} \<and>
     watched (destroy (fst (action_run (a0, [])
       [Notify 0 [\<lparr>target = 3, isIntersecting = True, intersectionRatio = 1\<rparr>]]))) = {} \<and>
     snd (action_run
       (destroy (fst (action_run (a0, [])
          [Notify 0 [\<lparr>target = 3, isIntersecting = True, intersectionRatio = 1\<rparr>]])),
        [EnterCall \<lparr>target = 3, isIntersecting = True, intersectionRatio = 1\<rparr>])
       (map (\<lambda>p. Notify (fst p) (snd p))
          [(0, [\<lparr>target = 3, isIntersecting = False, intersectionRatio = 0\<rparr>])])) =
       [EnterCall \<lparr>target = 3, isIntersecting = True, intersectionRatio = 1\<rparr>]"
proof -
  obtain a0 :: "(call list) action"
    where att: "intersect example_parses 3 (Some (recording_params Absent)) = Inr a0"
    by (simp add: intersect_Some recording_params_def no_params_def nullish_def nullish_null_def
        constructor_throws_def threshold_values_def example_parses_def)
  let ?a = "fst (action_run (a0, [])
      [Notify 0 [\<lparr>target = 3, isIntersecting = True, intersectionRatio = 1\<rparr>]])"
  have a0: "observer a0 = Some 0" "observers a0 = [\<lparr>options = opts a0, targets = {3}\<rparr>]"
    "current a0 = recording_params Absent"
    using intersect_frame(2,5,6) [OF att] by simp_all
  have before: "watched ?a = {3}"
    by (simp add: action_run_def notify_def Let_def a0 on_entry_def watched_def
        recording_params_def no_params_def)
  note d = destroy_stops_watching [OF att refl, of "[]"
      "[Notify 0 [\<lparr>target = 3, isIntersecting = True, intersectionRatio = 1\<rparr>]]"
      "[EnterCall \<lparr>target = 3, isIntersecting = True, intersectionRatio = 1\<rparr>]"
      "[(0, [\<lparr>target = 3, isIntersecting = False, intersectionRatio = 0\<rparr>])]"]
  from d have after: "watched (destroy ?a) = {}"
    by (rule conjunct1)
  from d have "action_run (destroy ?a, [EnterCall \<lparr>target = 3, isIntersecting = True, intersectionRatio = 1\<rparr>])
     (map (\<lambda>p. Notify (fst p) (snd p))
        [(0, [\<lparr>target = 3, isIntersecting = False, intersectionRatio = 0\<rparr>])]) =
     (destroy ?a, [EnterCall \<lparr>target = 3, isIntersecting = True, intersectionRatio = 1\<rparr>])"
    by blast
  then have quiet: "snd (action_run (destroy ?a, [EnterCall \<lparr>target = 3, isIntersecting = True, intersectionRatio = 1\<rparr>])
     (map (\<lambda>p. Notify (fst p) (snd p))
        [(0, [\<lparr>target = 3, isIntersecting = False, intersectionRatio = 0\<rparr>])])) =
     [EnterCall \<lparr>target = 3, isIntersecting = True, intersectionRatio = 1\<rparr>]"
    by (simp only: snd_conv)
  show ?thesis
    by (intro exI [of _ a0] conjI att before after quiet)
qed

subsection \<open>The observer callback\<close>

lemma snd_on_entry:
  "snd (on_entry e x) =
    (if isIntersecting e then optional_call (onEnter (current (fst x))) e (snd x)
     else optional_call (onLeave (current (fst x))) e (snd x))"
  by (cases x) (simp add: on_entry_def Let_def)

lemma snd_callback:
  "current (fst x) = c \<Longrightarrow>
   snd (callback es x) =
    foldl (\<lambda>s e. if isIntersecting e then optional_call (onEnter c) e s
                  else optional_call (onLeave c) e s) (snd x) es"
  by (induction es arbitrary: x) (simp_all add: on_entry_frame snd_on_entry)

lemma watched_on_entry:
  "watched (fst (on_entry e x)) =
    (if isIntersecting e \<and> once (current (fst x)) = Value True
     then watched (fst x) - {target e} else watched (fst x))"
  by (cases x)
    (auto simp: on_entry_def Let_def watched_def unobserve_def modify_def split: option.splits)

lemma watched_callback:
  "once (current (fst x)) = Value True \<Longrightarrow>
   watched (fst (callback es x)) = watched (fst x) - target ` set (filter isIntersecting es)"
  by (induction es arbitrary: x) (auto simp: on_entry_frame watched_on_entry)

lemma fst_on_entry_not_once:
  "once (current (fst x)) \<noteq> Value True \<Longrightarrow> fst (on_entry e x) = fst x"
  by (cases x) (simp add: on_entry_def Let_def)

lemma fst_callback_not_once:
  "once (current (fst x)) \<noteq> Value True \<Longrightarrow> fst (callback es x) = fst x"
  by (induction es arbitrary: x) (simp_all add: fst_on_entry_not_once)

lemma notify_unwatched:
  assumes "observer (fst x) = Some i" and "list_all (\<lambda>e. target e \<notin> watched (fst x)) es"
  shows "notify i es x = x"
proof -
  have "filter (\<lambda>e. i < length (observers (fst x)) \<and> target e \<in> targets (observers (fst x) ! i)) es = []"
    using assms by (auto simp: list_all_iff filter_empty_conv watched_def)
  then show ?thesis by (simp add: notify_def Let_def)
qed

text \<open>
  Claim C1, as amended. For every batch handed to the observer callback, the entries are
  taken in order, an intersecting entry invoking the current \<open>onEnter\<close> with it (when
  there is one) and any other entry invoking the current \<open>onLeave\<close> with it (when there
  is one); every entry of the batch is dispatched. The action's variables are not changed.
  Without \<open>once\<close> the observers are not changed either. With \<open>once\<close> set, the targets
  of the intersecting entries are unobserved, so after the batch the current observer
  watches none of them, and a later notification about those targets alone runs no callback.
\<close>

theorem callback_dispatch:
  "snd (callback es (a, s)) =
     foldl (\<lambda>s e. if isIntersecting e then optional_call (onEnter (current a)) e s
                   else optional_call (onLeave (current a)) e s) s es \<and>
   node (fst (callback es (a, s))) = node a \<and> opts (fst (callback es (a, s))) = opts a \<and>
   current (fst (callback es (a, s))) = current a \<and>
   observer (fst (callback es (a, s))) = observer a \<and>
   (once (current a) \<noteq> Value True \<longrightarrow> fst (callback es (a, s)) = a) \<and>
   (once (current a) = Value True \<longrightarrow>
      watched (fst (callback es (a, s))) = watched a - target ` set (filter isIntersecting es) \<and>
      (\<forall>i later. observer a = Some i \<and>
          list_all (\<lambda>e. target e \<in> target ` set (filter isIntersecting es)) later \<longrightarrow>
          notify i later (callback es (a, s)) = callback es (a, s)))"
proof -
  have w: "watched (fst (callback es (a, s))) = watched a - target ` set (filter isIntersecting es)"
    if "once (current a) = Value True"
    using that watched_callback [of "(a, s)" es] by simp
  have later: "notify i later (callback es (a, s)) = callback es (a, s)"
    if "once (current a) = Value True" and "observer a = Some i"
      and "list_all (\<lambda>e. target e \<in> target ` set (filter isIntersecting es)) later"
    for i later
  proof (rule notify_unwatched)
    show "observer (fst (callback es (a, s))) = Some i"
      using that(2) callback_frame [of es "(a, s)"] by simp
    show "list_all (\<lambda>e. target e \<notin> watched (fst (callback es (a, s)))) later"
      using that(3) by (auto simp: w [OF that(1)] list_all_iff)
  qed
  show ?thesis
    using snd_callback [of "(a, s)" "current a" es] callback_frame [of es "(a, s)"]
      fst_callback_not_once [of "(a, s)" es] w later
    by simp
qed

theorem callback_dispatch_witness:
  "\<exists>a. intersect example_parses 3 (Some (recording_params (Value True))) = Inr a \<and>
     snd (callback
         [\<lparr>target = 3, isIntersecting = True, intersectionRatio = 1\<rparr>,
          \<lparr>target = 3, isIntersecting = False, intersectionRatio = 0\<rparr>]
         (a, [])) =
       [EnterCall \<lparr>target = 3, isIntersecting = True, intersectionRatio = 1\<rparr>,
        LeaveCall \<lparr>target = 3, isIntersecting = False, intersectionRatio = 0\<rparr>] \<and>
     watched a = {3} \<and>
     watched (fst (callback
         [\<lparr>target = 3, isIntersecting = True, intersectionRatio = 1\<rparr>,
          \<lparr>target = 3, isIntersecting = False, intersectionRatio = 0\<rparr>]
         (a, []))) = {} \<and>
     notify 0 [\<lparr>target = 3, isIntersecting = False, intersectionRatio = 0\<rparr>]
       (callback
         [\<lparr>target = 3, isIntersecting = True, intersectionRatio = 1\<rparr>,
          \<lparr>target = 3, isIntersecting = False, intersectionRatio = 0\<rparr>]
         (a, [])) =
       callback
         [\<lparr>target = 3, isIntersecting = True, intersectionRatio = 1\<rparr>,
          \<lparr>target = 3, isIntersecting = False, intersectionRatio = 0\<rparr>]
         (a, [])"
proof -
  obtain a :: "(call list) action"
    where att: "intersect example_parses 3 (Some (recording_params (Value True))) = Inr a"
    by (simp add: intersect_Some recording_params_def no_params_def nullish_def nullish_null_def
        constructor_throws_def threshold_values_def example_parses_def)
  let ?es = "[\<lparr>target = 3, isIntersecting = True, intersectionRatio = 1\<rparr>,
          \<lparr>target = 3, isIntersecting = False, intersectionRatio = 0\<rparr>]"
  have cur: "current a = recording_params (Value True)" and obs: "observer a = Some 0"
    and w: "watched a = {3}"
    using intersect_frame(2,3,6) [OF att] by simp_all
  have once: "once (current a) = Value True"
    by (simp add: cur recording_params_def no_params_def)
  have cb: "onEnter (current a) = Value (\<lambda>e cs. cs @ [EnterCall e])"
    "onLeave (current a) = Value (\<lambda>e cs. cs @ [LeaveCall e])"
    by (simp_all add: cur recording_params_def no_params_def)
  have later: "list_all (\<lambda>e. target e \<in> target ` set (filter isIntersecting ?es))
      [\<lparr>target = 3, isIntersecting = False, intersectionRatio = 0\<rparr>]"
    by simp
  note d = callback_dispatch [of ?es a "[]"]
  from d once obs later have quiet:
    "notify 0 [\<lparr>target = 3, isIntersecting = False, intersectionRatio = 0\<rparr>] (callback ?es (a, [])) =
      callback ?es (a, [])"
    by blast
  from d once have "watched (fst (callback ?es (a, []))) =
      watched a - target ` set (filter isIntersecting ?es)"
    by blast
  then have unwatched: "watched (fst (callback ?es (a, []))) = {}"
    by (simp only: w) simp
  have calls: "snd (callback ?es (a, [])) =
     [EnterCall \<lparr>target = 3, isIntersecting = True, intersectionRatio = 1\<rparr>,
      LeaveCall \<lparr>target = 3, isIntersecting = False, intersectionRatio = 0\<rparr>]"
    unfolding d [THEN conjunct1] by (simp add: cb optional_call_def)
  show ?thesis
    by (intro exI [of _ a] conjI att calls w unwatched quiet)
qed

text \<open>
  Claim C1 as stated fails: with \<open>once\<close> set, an entry for the same target later in the
  same batch still reaches a callback after the enter callback has run and the target has
  been unobserved.
\<close>

theorem once_same_batch_counterexample:
  "\<exists>a. intersect example_parses 3 (Some (recording_params (Value True))) = Inr a \<and>
     snd (notify 0
         [\<lparr>target = 3, isIntersecting = True, intersectionRatio = 1\<rparr>,
          \<lparr>target = 3, isIntersecting = False, intersectionRatio = 0\<rparr>]
         (a, [])) =
       [EnterCall \<lparr>target = 3, isIntersecting = True, intersectionRatio = 1\<rparr>,
        LeaveCall \<lparr>target = 3, isIntersecting = False, intersectionRatio = 0\<rparr>] \<and>
     \<not> no_call_after_enter
       (snd (notify 0
         [\<lparr>target = 3, isIntersecting = True, intersectionRatio = 1\<rparr>,
          \<lparr>target = 3, isIntersecting = False, intersectionRatio = 0\<rparr>]
         (a, [])))"
proof -
  obtain a :: "(call list) action"
    where att: "intersect example_parses 3 (Some (recording_params (Value True))) = Inr a"
    by (simp add: intersect_Some recording_params_def no_params_def nullish_def nullish_null_def
        constructor_throws_def threshold_values_def example_parses_def)
  have a: "observer a = Some 0" "observers a = [\<lparr>options = opts a, targets = {3}\<rparr>]"
    "current a = recording_params (Value True)"
    using intersect_frame(2,5,6) [OF att] by simp_all
  have calls: "snd (notify 0
         [\<lparr>target = 3, isIntersecting = True, intersectionRatio = 1\<rparr>,
          \<lparr>target = 3, isIntersecting = False, intersectionRatio = 0\<rparr>]
         (a, [])) =
       [EnterCall \<lparr>target = 3, isIntersecting = True, intersectionRatio = 1\<rparr>,
        LeaveCall \<lparr>target = 3, isIntersecting = False, intersectionRatio = 0\<rparr>]"
    by (simp add: notify_def Let_def a on_entry_def recording_params_def no_params_def
        optional_call_def unobserve_def modify_def)
  have after: "\<not> no_call_after_enter
       (snd (notify 0
         [\<lparr>target = 3, isIntersecting = True, intersectionRatio = 1\<rparr>,
          \<lparr>target = 3, isIntersecting = False, intersectionRatio = 0\<rparr>]
         (a, [])))"
    unfolding calls by simp
  show ?thesis
    by (intro exI [of _ a] conjI att calls after)
qed


section \<open>When the page's state is written\<close>

lemma snd_notify:
  "snd (notify i es (a, s)) =
    foldl (\<lambda>s e. if isIntersecting e then optional_call (onEnter (current a)) e s
                  else optional_call (onLeave (current a)) e s) s (reported i a es)"
proof (cases "reported i a es = []")
  case True
  then show ?thesis by (simp add: notify_def Let_def reported_def)
next
  case False
  then have "notify i es (a, s) = callback (reported i a es) (a, s)"
    by (simp add: notify_def Let_def reported_def)
  then show ?thesis
    using snd_callback [of "(a, s)" "current a" "reported i a es"] by simp
qed

lemma foldl_keeps:
  "(\<And>s e. g (f s e) = g s) \<Longrightarrow> g (foldl f s es) = g s"
  by (induction es arbitrary: s) simp_all

lemma markRevealed_images: "images (markRevealed i eo s) = images s"
  by (simp add: markRevealed_def Let_def note_entry_fields split: option.splits)

lemma foldl_loadFull:
  "foldl (\<lambda>s e. if isIntersecting e then loadFull shot (Some e) s else s) s es =
    s\<lparr>images := images s @
        (if imageSrc s (item_id shot) = Some (full shot) then []
         else map (\<lambda>e. (shot, Some e)) (filter isIntersecting es))\<rparr>"
  by (induction es arbitrary: s) (simp_all add: loadFull_def)

lemma image_loaded_at:
  assumes "k < length (images s)" and "images s ! k = (it, eo)"
  shows "imageSrc (image_loaded k s) = (imageSrc s)(item_id it \<mapsto> full it)"
    and "loadedImages (image_loaded k s) = insert (item_id it) (loadedImages s)"
    and "logs (image_loaded k s) =
      (case eo of None \<Rightarrow> logs s | Some e \<Rightarrow> logs (note_entry e (item_id it) s))"
  using assms
  by (simp_all add: image_loaded_def onload_fields)
    (simp add: onload_def note_entry_def Let_def split: option.splits)

lemma hd_gallery: "hd gallery \<in> set gallery" "item_id (hd gallery) = ''aurora''"
  "blur (hd gallery) \<noteq> full (hd gallery)"
  by (simp_all add: gallery_def)

text \<open>
  Claim C7, as amended. What a notification does to the page's state is what the
  callbacks of the entries it hands over do, one after the other. The callbacks of the
  page sections, the reveal blocks and the scroll-spy articles write the state
  (\<open>activeSection\<close>, \<open>revealed\<close>, \<open>logs\<close>) while the observer callback runs, and
  leave no image waiting: nothing of theirs happens later. The callback of a gallery card
  writes none of \<open>activeSection\<close>, \<open>imageSrc\<close>, \<open>loadedImages\<close>, \<open>revealed\<close>
  and \<open>logs\<close> while the observer callback runs: unless the full image is shown
  already, it creates one \<open>Image\<close> for each intersecting entry, which waits; and
  \<open>imageSrc\<close>, \<open>loadedImages\<close> and \<open>logs\<close> are written later, when the load event
  of a waiting image fires.
\<close>

theorem reacts_within_notification:
  "(current sa = section_params t sec \<longrightarrow>
      snd (notify i es (sa, s)) =
        foldl (\<lambda>s e. if isIntersecting e then s\<lparr>activeSection := sec\<rparr> else s) s
          (reported i sa es) \<and>
      images (snd (notify i es (sa, s))) = images s) \<and>
   (current ra = reveal_params t b \<longrightarrow>
      snd (notify i es (ra, s)) =
        foldl (\<lambda>s e. if isIntersecting e then markRevealed b (Some e) s else s) s
          (reported i ra es) \<and>
      images (snd (notify i es (ra, s))) = images s) \<and>
   (current pa = spy_params sid \<longrightarrow>
      snd (notify i es (pa, s)) =
        foldl (\<lambda>s e. if isIntersecting e then note_entry e sid (s\<lparr>activeSection := Spy\<rparr>)
                      else note_entry e sid s) s
          (reported i pa es) \<and>
      images (snd (notify i es (pa, s))) = images s) \<and>
   (current ga = gallery_params shot \<longrightarrow>
      snd (notify i es (ga, s)) =
        s\<lparr>images := images s @
            (if imageSrc s (item_id shot) = Some (full shot) then []
             else map (\<lambda>e. (shot, Some e)) (filter isIntersecting (reported i ga es)))\<rparr> \<and>
      activeSection (snd (notify i es (ga, s))) = activeSection s \<and>
      imageSrc (snd (notify i es (ga, s))) = imageSrc s \<and>
      loadedImages (snd (notify i es (ga, s))) = loadedImages s \<and>
      revealed (snd (notify i es (ga, s))) = revealed s \<and>
      logs (snd (notify i es (ga, s))) = logs s) \<and>
   (k < length (images s) \<and> images s ! k = (it, eo) \<longrightarrow>
      imageSrc (image_loaded k s) = (imageSrc s)(item_id it \<mapsto> full it) \<and>
      loadedImages (image_loaded k s) = insert (item_id it) (loadedImages s) \<and>
      logs (image_loaded k s) =
        (case eo of None \<Rightarrow> logs s | Some e \<Rightarrow> logs (note_entry e (item_id it) s)))"
proof -
  have sect: "snd (notify i es (sa, s)) =
        foldl (\<lambda>s e. if isIntersecting e then s\<lparr>activeSection := sec\<rparr> else s) s
          (reported i sa es) \<and>
      images (snd (notify i es (sa, s))) = images s"
    if c: "current sa = section_params t sec"
  proof -
    have eq: "snd (notify i es (sa, s)) =
        foldl (\<lambda>s e. if isIntersecting e then s\<lparr>activeSection := sec\<rparr> else s) s
          (reported i sa es)"
      by (simp add: snd_notify c section_params_def no_params_def optional_call_def cong: if_cong)
    have "images (foldl (\<lambda>s e. if isIntersecting e then s\<lparr>activeSection := sec\<rparr> else s) s
          (reported i sa es)) = images s"
      by (rule foldl_keeps) simp
    with eq show ?thesis by simp
  qed
  have rev: "snd (notify i es (ra, s)) =
        foldl (\<lambda>s e. if isIntersecting e then markRevealed b (Some e) s else s) s
          (reported i ra es) \<and>
      images (snd (notify i es (ra, s))) = images s"
    if c: "current ra = reveal_params t b"
  proof -
    have eq: "snd (notify i es (ra, s)) =
        foldl (\<lambda>s e. if isIntersecting e then markRevealed b (Some e) s else s) s
          (reported i ra es)"
      by (simp add: snd_notify c reveal_params_def no_params_def optional_call_def cong: if_cong)
    have "images (foldl (\<lambda>s e. if isIntersecting e then markRevealed b (Some e) s else s) s
          (reported i ra es)) = images s"
      by (rule foldl_keeps) (simp add: markRevealed_images)
    with eq show ?thesis by simp
  qed
  have spy: "snd (notify i es (pa, s)) =
        foldl (\<lambda>s e. if isIntersecting e then note_entry e sid (s\<lparr>activeSection := Spy\<rparr>)
                      else note_entry e sid s) s
          (reported i pa es) \<and>
      images (snd (notify i es (pa, s))) = images s"
    if c: "current pa = spy_params sid"
  proof -
    have eq: "snd (notify i es (pa, s)) =
        foldl (\<lambda>s e. if isIntersecting e then note_entry e sid (s\<lparr>activeSection := Spy\<rparr>)
                      else note_entry e sid s) s
          (reported i pa es)"
      by (simp add: snd_notify c spy_params_def no_params_def optional_call_def cong: if_cong)
    have "images (foldl (\<lambda>s e. if isIntersecting e then note_entry e sid (s\<lparr>activeSection := Spy\<rparr>)
                      else note_entry e sid s) s
          (reported i pa es)) = images s"
      by (rule foldl_keeps) (simp add: note_entry_fields)
    with eq show ?thesis by simp
  qed
  have gal: "snd (notify i es (ga, s)) =
        s\<lparr>images := images s @
            (if imageSrc s (item_id shot) = Some (full shot) then []
             else map (\<lambda>e. (shot, Some e)) (filter isIntersecting (reported i ga es)))\<rparr> \<and>
      activeSection (snd (notify i es (ga, s))) = activeSection s \<and>
      imageSrc (snd (notify i es (ga, s))) = imageSrc s \<and>
      loadedImages (snd (notify i es (ga, s))) = loadedImages s \<and>
      revealed (snd (notify i es (ga, s))) = revealed s \<and>
      logs (snd (notify i es (ga, s))) = logs s"
    if c: "current ga = gallery_params shot"
  proof -
    have "snd (notify i es (ga, s)) =
        foldl (\<lambda>s e. if isIntersecting e then loadFull shot (Some e) s else s) s
          (reported i ga es)"
      by (simp add: snd_notify c gallery_params_def no_params_def optional_call_def cong: if_cong)
    then have eq: "snd (notify i es (ga, s)) =
        s\<lparr>images := images s @
            (if imageSrc s (item_id shot) = Some (full shot) then []
             else map (\<lambda>e. (shot, Some e)) (filter isIntersecting (reported i ga es)))\<rparr>"
      by (simp only: foldl_loadFull)
    show ?thesis
      by (rule conjI [OF eq]) (simp add: eq)
  qed
  show ?thesis
    using sect rev spy gal image_loaded_at [of k s it eo] by blast
qed


lemma reported_first:
  assumes "intersect parses n po = Inr a"
  shows "reported 0 a [\<lparr>target = n, isIntersecting = b, intersectionRatio = r\<rparr>] =
    [\<lparr>target = n, isIntersecting = b, intersectionRatio = r\<rparr>]"
  by (simp add: reported_def intersect_frame(5) [OF assms])

lemma attaches:
  assumes "rootMargin p = Absent \<or> rootMargin p = Value ''0px 0px 240px 0px''"
    and "threshold p = Value (Num t)" and "0 \<le> t" and "t \<le> 1"
  shows "\<exists>a. intersect example_parses n (Some p) = Inr a"
  using assms
  by (auto simp: intersect_Some nullish_def constructor_throws_def threshold_values_def
      example_parses_def split: option.splits)

theorem reacts_within_notification_witness:
  "\<exists>sa ra pa ga.
     intersect example_parses 3 (Some (section_params 0.5 Lazy)) = Inr sa \<and>
     intersect example_parses 4 (Some (reveal_params 0.35 ''precision'')) = Inr ra \<and>
     intersect example_parses 5 (Some (spy_params ''use-case-1'')) = Inr pa \<and>
     intersect example_parses 6 (Some (gallery_params (hd gallery))) = Inr ga \<and>
     activeSection (snd (notify 0 [\<lparr>target = 3, isIntersecting = True, intersectionRatio = 1\<rparr>]
       (sa, loadFull (hd gallery) None (initial_page (\<lambda>n. ''12:00:00'') (\<lambda>r. r))))) = Lazy \<and>
     revealed (snd (notify 0 [\<lparr>target = 4, isIntersecting = True, intersectionRatio = 1\<rparr>]
       (ra, loadFull (hd gallery) None (initial_page (\<lambda>n. ''12:00:00'') (\<lambda>r. r))))) =
       {''precision''} \<and>
     map ident (logs (snd (notify 0 [\<lparr>target = 5, isIntersecting = False, intersectionRatio = 0\<rparr>]
       (pa, loadFull (hd gallery) None (initial_page (\<lambda>n. ''12:00:00'') (\<lambda>r. r)))))) =
       [''use-case-1''] \<and>
     images (snd (notify 0 [\<lparr>target = 6, isIntersecting = True, intersectionRatio = 1\<rparr>]
       (ga, loadFull (hd gallery) None (initial_page (\<lambda>n. ''12:00:00'') (\<lambda>r. r))))) =
       [(hd gallery, None),
        (hd gallery, Some \<lparr>target = 6, isIntersecting = True, intersectionRatio = 1\<rparr>)] \<and>
     loadedImages (image_loaded 0
       (loadFull (hd gallery) None (initial_page (\<lambda>n. ''12:00:00'') (\<lambda>r. r)))) = {''aurora''}"
proof -
  let ?init = "initial_page (\<lambda>n. ''12:00:00'') (\<lambda>r. r)"
  let ?s = "loadFull (hd gallery) None ?init"
  obtain sa where sa: "intersect example_parses 3 (Some (section_params 0.5 Lazy)) = Inr sa"
    using attaches [of "section_params 0.5 Lazy" "0.5" 3]
    by (auto simp: section_params_def no_params_def)
  obtain ra where ra: "intersect example_parses 4 (Some (reveal_params 0.35 ''precision'')) = Inr ra"
    using attaches [of "reveal_params 0.35 ''precision''" "0.35" 4]
    by (auto simp: reveal_params_def no_params_def)
  obtain pa where pa: "intersect example_parses 5 (Some (spy_params ''use-case-1'')) = Inr pa"
    using attaches [of "spy_params ''use-case-1''" "0.5" 5]
    by (auto simp: spy_params_def no_params_def)
  obtain ga where ga: "intersect example_parses 6 (Some (gallery_params (hd gallery))) = Inr ga"
    using attaches [of "gallery_params (hd gallery)" "0.15" 6]
    by (auto simp: gallery_params_def no_params_def)
  have cur: "current sa = section_params 0.5 Lazy" "current ra = reveal_params 0.35 ''precision''"
    "current pa = spy_params ''use-case-1''" "current ga = gallery_params (hd gallery)"
    using intersect_frame(6) [OF sa] intersect_frame(6) [OF ra] intersect_frame(6) [OF pa]
      intersect_frame(6) [OF ga]
    by simp_all
  have s: "?s = ?init\<lparr>images := [(hd gallery, None)]\<rparr>"
    using hd_gallery(3)
    by (simp add: loadFull_def initial_imageSrc [OF hd_gallery(1)] initial_images)
  have waiting: "0 < length (images ?s) \<and> images ?s ! 0 = (hd gallery, None)"
    by (simp add: s)
  have not_full: "imageSrc ?s (item_id (hd gallery)) \<noteq> Some (full (hd gallery))"
    using hd_gallery(3) by (simp add: s initial_imageSrc [OF hd_gallery(1)])
  note r = reacts_within_notification [where sa = sa and ra = ra and pa = pa and ga = ga
      and sec = Lazy and b = "''precision''" and sid = "''use-case-1''" and shot = "hd gallery"
      and s = ?s and k = 0 and it = "hd gallery" and eo = None and i = 0]
  from r [where es = "[\<lparr>target = 3, isIntersecting = True, intersectionRatio = 1\<rparr>]",
      THEN conjunct1, THEN mp, OF cur(1), THEN conjunct1]
  have "snd (notify 0 [\<lparr>target = 3, isIntersecting = True, intersectionRatio = 1\<rparr>] (sa, ?s)) =
      foldl (\<lambda>s e. if isIntersecting e then s\<lparr>activeSection := Lazy\<rparr> else s) ?s
        (reported 0 sa [\<lparr>target = 3, isIntersecting = True, intersectionRatio = 1\<rparr>])"
    .
  then have one: "activeSection (snd (notify 0
      [\<lparr>target = 3, isIntersecting = True, intersectionRatio = 1\<rparr>] (sa, ?s))) = Lazy"
    by (simp add: reported_first [OF sa])
  from r [where es = "[\<lparr>target = 4, isIntersecting = True, intersectionRatio = 1\<rparr>]",
      THEN conjunct2, THEN conjunct1, THEN mp, OF cur(2), THEN conjunct1]
  have "snd (notify 0 [\<lparr>target = 4, isIntersecting = True, intersectionRatio = 1\<rparr>] (ra, ?s)) =
      foldl (\<lambda>s e. if isIntersecting e then markRevealed ''precision'' (Some e) s else s) ?s
        (reported 0 ra [\<lparr>target = 4, isIntersecting = True, intersectionRatio = 1\<rparr>])"
    .
  then have two: "revealed (snd (notify 0
      [\<lparr>target = 4, isIntersecting = True, intersectionRatio = 1\<rparr>] (ra, ?s))) = {''precision''}"
    by (simp add: reported_first [OF ra] markRevealed_def note_entry_fields s)
      (simp add: initial_page_def)
  from r [where es = "[\<lparr>target = 5, isIntersecting = False, intersectionRatio = 0\<rparr>]",
      THEN conjunct2, THEN conjunct2, THEN conjunct1, THEN mp, OF cur(3), THEN conjunct1]
  have "snd (notify 0 [\<lparr>target = 5, isIntersecting = False, intersectionRatio = 0\<rparr>] (pa, ?s)) =
      foldl (\<lambda>s e. if isIntersecting e then note_entry e ''use-case-1'' (s\<lparr>activeSection := Spy\<rparr>)
                    else note_entry e ''use-case-1'' s) ?s
        (reported 0 pa [\<lparr>target = 5, isIntersecting = False, intersectionRatio = 0\<rparr>])"
    .
  then have three: "map ident (logs (snd (notify 0
      [\<lparr>target = 5, isIntersecting = False, intersectionRatio = 0\<rparr>] (pa, ?s)))) = [''use-case-1'']"
    by (simp add: reported_first [OF pa] note_entry_def s) (simp add: initial_page_def)
  from r [where es = "[\<lparr>target = 6, isIntersecting = True, intersectionRatio = 1\<rparr>]",
      THEN conjunct2, THEN conjunct2, THEN conjunct2, THEN conjunct1, THEN mp, OF cur(4),
      THEN conjunct1]
  have "snd (notify 0 [\<lparr>target = 6, isIntersecting = True, intersectionRatio = 1\<rparr>] (ga, ?s)) =
        ?s\<lparr>images := images ?s @
            (if imageSrc ?s (item_id (hd gallery)) = Some (full (hd gallery)) then []
             else map (\<lambda>e. (hd gallery, Some e))
               (filter isIntersecting
                 (reported 0 ga [\<lparr>target = 6, isIntersecting = True, intersectionRatio = 1\<rparr>])))\<rparr>"
    .
  then have four: "images (snd (notify 0
      [\<lparr>target = 6, isIntersecting = True, intersectionRatio = 1\<rparr>] (ga, ?s))) =
       [(hd gallery, None),
        (hd gallery, Some \<lparr>target = 6, isIntersecting = True, intersectionRatio = 1\<rparr>)]"
    using not_full by (simp add: reported_first [OF ga]) (simp add: s)
  from r [THEN conjunct2, THEN conjunct2, THEN conjunct2, THEN conjunct2, THEN mp, OF waiting,
      THEN conjunct2, THEN conjunct1]
  have "loadedImages (image_loaded 0 ?s) = insert (item_id (hd gallery)) (loadedImages ?s)"
    .
  then have five: "loadedImages (image_loaded 0 ?s) = {''aurora''}"
    by (simp add: hd_gallery(2) s) (simp add: initial_page_def)
  show ?thesis
    by (rule exI [of _ sa], rule exI [of _ ra], rule exI [of _ pa], rule exI [of _ ga])
      (intro conjI sa ra pa ga one two three four five)
qed

text \<open>
  Claim C7 as stated fails: a gallery card is notified, the observer callback returns
  with \<open>imageSrc\<close>, \<open>loadedImages\<close> and \<open>logs\<close> as they were, and the three are
  written afterwards, by the \<open>onload\<close> handler.
\<close>

theorem deferred_load_counterexample:
  "\<exists>ga. intersect example_parses 3 (Some (gallery_params (hd gallery))) = Inr ga \<and>
   imageSrc (snd (notify 0 [\<lparr>target = 3, isIntersecting = True, intersectionRatio = 1\<rparr>]
        (ga, initial_page (\<lambda>n. ''12:00:00'') (\<lambda>r. r))))
      ''aurora'' = Some (blur (hd gallery)) \<and>
   loadedImages (snd (notify 0 [\<lparr>target = 3, isIntersecting = True, intersectionRatio = 1\<rparr>]
        (ga, initial_page (\<lambda>n. ''12:00:00'') (\<lambda>r. r)))) = {} \<and>
   logs (snd (notify 0 [\<lparr>target = 3, isIntersecting = True, intersectionRatio = 1\<rparr>]
        (ga, initial_page (\<lambda>n. ''12:00:00'') (\<lambda>r. r)))) = [] \<and>
   imageSrc (image_loaded 0
      (snd (notify 0 [\<lparr>target = 3, isIntersecting = True, intersectionRatio = 1\<rparr>]
        (ga, initial_page (\<lambda>n. ''12:00:00'') (\<lambda>r. r)))))
      ''aurora'' = Some (full (hd gallery)) \<and>
   blur (hd gallery) \<noteq> full (hd gallery) \<and>
   loadedImages (image_loaded 0
      (snd (notify 0 [\<lparr>target = 3, isIntersecting = True, intersectionRatio = 1\<rparr>]
        (ga, initial_page (\<lambda>n. ''12:00:00'') (\<lambda>r. r))))) = {''aurora''} \<and>
   logs (image_loaded 0
      (snd (notify 0 [\<lparr>target = 3, isIntersecting = True, intersectionRatio = 1\<rparr>]
        (ga, initial_page (\<lambda>n. ''12:00:00'') (\<lambda>r. r))))) =
      [\<lparr>ident = ''aurora'', ratio = 1, direction = enter, time = ''12:00:00''\<rparr>]"
proof -
  let ?init = "initial_page (\<lambda>n. ''12:00:00'') (\<lambda>r. r)"
  let ?e = "\<lparr>target = 3, isIntersecting = True, intersectionRatio = 1\<rparr>"
  obtain ga where ga: "intersect example_parses 3 (Some (gallery_params (hd gallery))) = Inr ga"
    using attaches [of "gallery_params (hd gallery)" "0.15" 3]
    by (auto simp: gallery_params_def no_params_def)
  have a: "observer ga = Some 0" "observers ga = [\<lparr>options = opts ga, targets = {3}\<rparr>]"
    "current ga = gallery_params (hd gallery)"
    using intersect_frame(2,5,6) [OF ga] by simp_all
  have notified: "snd (notify 0 [?e] (ga, ?init)) = ?init\<lparr>images := [(hd gallery, Some ?e)]\<rparr>"
    using hd_gallery(3)
    by (simp add: notify_def Let_def a on_entry_def gallery_params_def no_params_def
        optional_call_def loadFull_def initial_imageSrc [OF hd_gallery(1)] initial_images)
  have src0: "imageSrc ?init ''aurora'' = Some (blur (hd gallery))"
    using initial_imageSrc [OF hd_gallery(1), of "\<lambda>n. ''12:00:00''" "\<lambda>r. r"]
    by (simp add: hd_gallery(2))
  have c1: "imageSrc (snd (notify 0 [?e] (ga, ?init))) ''aurora'' = Some (blur (hd gallery))"
    unfolding notified using src0 by simp
  have c2: "loadedImages (snd (notify 0 [?e] (ga, ?init))) = {}"
    unfolding notified by (simp add: initial_page_def)
  have c3: "logs (snd (notify 0 [?e] (ga, ?init))) = []"
    unfolding notified by (simp add: initial_page_def)
  have c4: "imageSrc (image_loaded 0 (snd (notify 0 [?e] (ga, ?init)))) ''aurora'' =
      Some (full (hd gallery))"
    unfolding notified
    by (simp add: hd_gallery(2) image_loaded_def onload_def Let_def note_entry_def)
  have c6: "loadedImages (image_loaded 0 (snd (notify 0 [?e] (ga, ?init)))) = {''aurora''}"
    unfolding notified
    by (simp add: hd_gallery(2) image_loaded_def onload_def Let_def note_entry_def)
      (simp add: initial_page_def)
  have c7: "logs (image_loaded 0 (snd (notify 0 [?e] (ga, ?init)))) =
      [\<lparr>ident = ''aurora'', ratio = 1, direction = enter, time = ''12:00:00''\<rparr>]"
    unfolding notified
    by (simp add: hd_gallery(2) image_loaded_def onload_def Let_def note_entry_def)
      (simp add: initial_page_def)
  show ?thesis
    by (intro exI [of _ ga] conjI ga c1 c2 c3 c4 hd_gallery(3) c6 c7)
qed

end
